theory Spec2Isabelle
  imports Main "HOL-Library.Word"
begin

unbundle bit_operations_syntax

section \<open>Python values used by server.py\<close>

text \<open>
  A Python \<open>bytes\<close> object is a list of 8-bit characters. A Python \<open>str\<close> is carried as
  its UTF-8 encoding, so \<open>str.encode()\<close> is the identity and \<open>bytes.decode()\<close> is a
  well-formedness check. Every delimiter the program looks for is an ASCII character, and
  UTF-8 never uses an ASCII byte inside a longer sequence, so searching and cutting work on
  the encoding as they do on code points.
\<close>

type_synonym bytes = "char list"

datatype exn = ValueError | IndexError | UnicodeDecodeError | TypeError | OSError

definition byte :: "char \<Rightarrow> nat" where
  "byte c = of_char c"

definition CR :: char where "CR = CHR 0x0D"
definition LF :: char where "LF = CHR 0x0A"
definition CRLF :: bytes where "CRLF = [CR, LF]"

definition is_space :: "char \<Rightarrow> bool" where
  \<comment> \<open>the whitespace of \<open>bytes.split()\<close> and \<open>bytes.strip()\<close>: space, \<open>\t \n \v \f \r\<close>\<close>
  "is_space c = (byte c = 32 \<or> (9 \<le> byte c \<and> byte c \<le> 13))"

definition is_ascii :: "char \<Rightarrow> bool" where
  "is_ascii c = (byte c < 128)"

definition is_digit :: "char \<Rightarrow> bool" where
  "is_digit c = (48 \<le> byte c \<and> byte c \<le> 57)"

definition is_upper :: "char \<Rightarrow> bool" where
  "is_upper c = (65 \<le> byte c \<and> byte c \<le> 90)"

definition is_alpha :: "char \<Rightarrow> bool" where
  "is_alpha c = (is_upper c \<or> (97 \<le> byte c \<and> byte c \<le> 122))"

definition is_hex :: "char \<Rightarrow> bool" where
  "is_hex c = (is_digit c \<or> (65 \<le> byte c \<and> byte c \<le> 70) \<or> (97 \<le> byte c \<and> byte c \<le> 102))"

definition ascii_lower :: "char \<Rightarrow> char" where
  "ascii_lower c = (if is_upper c then char_of (byte c + 32) else c)"

fun split_ws_from :: "bytes \<Rightarrow> bytes \<Rightarrow> bytes list" where
  "split_ws_from cur [] = (if cur = [] then [] else [cur])"
| "split_ws_from cur (c # cs) =
     (if is_space c then (if cur = [] then split_ws_from [] cs else cur # split_ws_from [] cs)
      else split_ws_from (cur @ [c]) cs)"

definition split_ws :: "bytes \<Rightarrow> bytes list" where
  \<comment> \<open>\<open>b.split()\<close>: the maximal runs of non-whitespace bytes\<close>
  "split_ws b = split_ws_from [] b"

definition startswith :: "bytes \<Rightarrow> bytes \<Rightarrow> bool" where
  "startswith b p = (take (length p) b = p)"

fun split_from :: "bytes \<Rightarrow> nat \<Rightarrow> bytes \<Rightarrow> bytes \<Rightarrow> bytes list" where
  "split_from sep skip cur [] = [cur]"
| "split_from sep skip cur (c # cs) =
     (if 0 < skip then split_from sep (skip - 1) cur cs
      else if startswith (c # cs) sep then cur # split_from sep (length sep - 1) [] cs
      else split_from sep 0 (cur @ [c]) cs)"

definition split_sep :: "bytes \<Rightarrow> bytes \<Rightarrow> bytes list" where
  \<comment> \<open>\<open>b.split(sep)\<close> for a non-empty separator: cut at the leftmost occurrences, which do not overlap\<close>
  "split_sep sep b = split_from sep 0 [] b"

definition item :: "'a list \<Rightarrow> nat \<Rightarrow> exn + 'a" where
  \<comment> \<open>\<open>xs[i]\<close> for an index \<open>i \<ge> 0\<close>\<close>
  "item xs i = (if i < length xs then Inr (xs ! i) else Inl IndexError)"

fun contains :: "bytes \<Rightarrow> bytes \<Rightarrow> bool" where
  \<comment> \<open>\<open>sub in b\<close>\<close>
  "contains sub [] = (sub = [])"
| "contains sub (c # cs) = (startswith (c # cs) sub \<or> contains sub cs)"

definition strip :: "bytes \<Rightarrow> bytes" where
  "strip b = rev (dropWhile is_space (rev (dropWhile is_space b)))"

fun parse_digits :: "bool \<Rightarrow> nat \<Rightarrow> bytes \<Rightarrow> nat option" where
  "parse_digits after_digit acc [] = (if after_digit then Some acc else None)"
| "parse_digits after_digit acc (c # cs) =
     (if is_digit c then parse_digits True (10 * acc + (byte c - 48)) cs
      else if c = CHR ''_'' \<and> after_digit then parse_digits False acc cs
      else None)"

definition py_int :: "bytes \<Rightarrow> exn + int" where
  \<comment> \<open>\<open>int(b)\<close> in base 10: surrounding whitespace, one optional sign, digits with single
      underscores between them. The limit of 4300 digits cannot be reached by a token of a
      request of at most 4096 bytes.\<close>
  "py_int b =
     (let t = strip b;
          neg = (t \<noteq> [] \<and> hd t = CHR ''-'');
          u = (if t \<noteq> [] \<and> (hd t = CHR ''-'' \<or> hd t = CHR ''+'') then tl t else t)
      in case parse_digits False 0 u of
           None \<Rightarrow> Inl ValueError
         | Some n \<Rightarrow> Inr (if neg then - int n else int n))"

fun str_nat :: "nat \<Rightarrow> string" where
  "str_nat n = (if n < 10 then [char_of (48 + n)] else str_nat (n div 10) @ [char_of (48 + n mod 10)])"

definition str_int :: "int \<Rightarrow> string" where
  \<comment> \<open>\<open>str(i)\<close>, as an f-string formats an int\<close>
  "str_int i = (if i < 0 then CHR ''-'' # str_nat (nat (- i)) else str_nat (nat i))"

definition cont :: "char \<Rightarrow> bool" where
  "cont c = (128 \<le> byte c \<and> byte c \<le> 191)"

fun utf8 :: "bytes \<Rightarrow> bool" where
  \<comment> \<open>well-formed UTF-8: no overlong forms, no surrogates, nothing above U+10FFFF\<close>
  "utf8 [] = True"
| "utf8 (a # s) =
     (if byte a < 128 then utf8 s
      else if 194 \<le> byte a \<and> byte a \<le> 223 then
        (case s of b # s1 \<Rightarrow> cont b \<and> utf8 s1 | _ \<Rightarrow> False)
      else if 224 \<le> byte a \<and> byte a \<le> 239 then
        (case s of b # c # s2 \<Rightarrow>
             cont b \<and> cont c \<and> (byte a = 224 \<longrightarrow> 160 \<le> byte b)
               \<and> (byte a = 237 \<longrightarrow> byte b \<le> 159) \<and> utf8 s2
         | _ \<Rightarrow> False)
      else if 240 \<le> byte a \<and> byte a \<le> 244 then
        (case s of b # c # d # s3 \<Rightarrow>
             cont b \<and> cont c \<and> cont d \<and> (byte a = 240 \<longrightarrow> 144 \<le> byte b)
               \<and> (byte a = 244 \<longrightarrow> byte b \<le> 143) \<and> utf8 s3
         | _ \<Rightarrow> False)
      else False)"

definition decode :: "bytes \<Rightarrow> exn + string" where
  \<comment> \<open>\<open>b.decode()\<close>: strict UTF-8\<close>
  "decode b = (if utf8 b then Inr b else Inl UnicodeDecodeError)"

section \<open>urllib.parse.urlparse\<close>

text \<open>
  The program parses every target with \<open>urllib.parse.urlparse\<close> and reads \<open>hostname\<close>,
  \<open>port\<close> and \<open>path\<close> of the result. The functions below follow \<open>urlsplit\<close>,
  \<open>urlparse\<close>, \<open>_splitnetloc\<close>, \<open>_splitparams\<close>, \<open>_checknetloc\<close>,
  \<open>_check_bracketed_host\<close> and the \<open>hostname\<close> and \<open>port\<close> properties of CPython 3.11.
  Three library tables are taken as parameters: Unicode lower-casing and NFKC normalisation,
  which only matter for text outside ASCII, and the address parser of the \<open>ipaddress\<close>
  module, which only matters for a host in square brackets.
\<close>

datatype ip_version = IPv4 | IPv6

record pylib =
  unicode_lower :: "string \<Rightarrow> string"
  nfkc :: "string \<Rightarrow> string"
  ip_address :: "string \<Rightarrow> ip_version option"

definition before :: "char \<Rightarrow> string \<Rightarrow> string" where
  \<comment> \<open>\<open>s.partition(c)[0]\<close>\<close>
  "before c s = takeWhile (\<lambda>x. x \<noteq> c) s"

definition after :: "char \<Rightarrow> string \<Rightarrow> string" where
  \<comment> \<open>\<open>s.partition(c)[2]\<close>\<close>
  "after c s = drop 1 (dropWhile (\<lambda>x. x \<noteq> c) s)"

definition after_last :: "char \<Rightarrow> string \<Rightarrow> string" where
  \<comment> \<open>\<open>s.rpartition(c)[2]\<close>\<close>
  "after_last c s = rev (takeWhile (\<lambda>x. x \<noteq> c) (rev s))"

definition str_lower :: "pylib \<Rightarrow> string \<Rightarrow> string" where
  "str_lower lib s = (if list_all is_ascii s then map ascii_lower s else unicode_lower lib s)"

definition is_scheme_char :: "char \<Rightarrow> bool" where
  "is_scheme_char c = (is_alpha c \<or> is_digit c \<or> c \<in> set ''+-.'')"

definition check_bracketed_host :: "pylib \<Rightarrow> string \<Rightarrow> bool" where
  \<comment> \<open>True when \<open>_check_bracketed_host\<close> returns, False when it raises ValueError\<close>
  "check_bracketed_host lib h =
     (if startswith h ''v'' then
        (let r = dropWhile is_hex (tl h)
         in takeWhile is_hex (tl h) \<noteq> [] \<and> startswith r ''.'' \<and> tl r \<noteq> [] \<and> LF \<notin> set (tl r))
      else ip_address lib h = Some IPv6)"

definition checknetloc :: "pylib \<Rightarrow> string \<Rightarrow> bool" where
  \<comment> \<open>True when \<open>_checknetloc\<close> returns, False when it raises ValueError\<close>
  "checknetloc lib nl =
     (if nl = [] \<or> list_all is_ascii nl then True
      else (let n = filter (\<lambda>c. c \<notin> set ''@:#?'') nl; netloc2 = nfkc lib n
            in n = netloc2 \<or> \<not> list_ex (\<lambda>c. c \<in> set netloc2) ''/?#@:''))"

record split_result =
  scheme :: string
  netloc :: string
  path :: string
  query :: string
  fragment :: string

definition clean_url :: "string \<Rightarrow> string" where
  \<comment> \<open>leading C0 control characters and spaces are stripped, then every tab, carriage
      return and line feed is removed\<close>
  "clean_url url = filter (\<lambda>c. c \<notin> set [CHR 0x09, CR, LF]) (dropWhile (\<lambda>c. byte c \<le> 32) url)"

definition split_scheme :: "string \<Rightarrow> string \<times> string" where
  \<comment> \<open>the scheme, lower-cased, and what follows its colon; no scheme when the text
      before the first colon is empty, does not start with an ASCII letter or has a
      character that no scheme has\<close>
  "split_scheme url =
     (let i = length (before CHR '':'' url)
      in if i < length url \<and> 0 < i \<and> is_ascii (hd url) \<and> is_alpha (hd url)
              \<and> list_all is_scheme_char (take i url)
         then (map ascii_lower (take i url), drop (i + 1) url)
         else ([], url))"

definition splitnetloc :: "string \<Rightarrow> string \<times> string" where
  \<comment> \<open>\<open>_splitnetloc(url, 2)\<close>: the text after \<open>//\<close> up to the first of \<open>/ ? #\<close>, and the
      rest; no network location when the text does not start with \<open>//\<close>\<close>
  "splitnetloc url =
     (if take 2 url = ''//''
      then (takeWhile (\<lambda>c. c \<notin> set ''/?#'') (drop 2 url),
            dropWhile (\<lambda>c. c \<notin> set ''/?#'') (drop 2 url))
      else ([], url))"

definition brackets_ok :: "pylib \<Rightarrow> string \<Rightarrow> bool" where
  \<comment> \<open>the checks on square brackets in a network location: False when \<open>urlsplit\<close> raises
      ValueError\<close>
  "brackets_ok lib nl =
     (if CHR ''['' \<in> set nl \<and> CHR '']'' \<in> set nl
      then check_bracketed_host lib (before CHR '']'' (after CHR ''['' nl))
      else CHR ''['' \<notin> set nl \<and> CHR '']'' \<notin> set nl)"

definition urlsplit :: "pylib \<Rightarrow> string \<Rightarrow> exn + split_result" where
  "urlsplit lib url0 =
     (case split_scheme (clean_url url0) of (sch, url) \<Rightarrow>
        (case splitnetloc url of (nl, rest) \<Rightarrow>
           if take 2 url = ''//'' \<and> \<not> brackets_ok lib nl then Inl ValueError
           else if \<not> checknetloc lib nl then Inl ValueError
           else Inr \<lparr>scheme = sch, netloc = nl,
                      path = before CHR ''?'' (before CHR ''#'' rest),
                      query = after CHR ''?'' (before CHR ''#'' rest),
                      fragment = after CHR ''#'' rest\<rparr>))"

definition uses_params :: "string list" where
  "uses_params = ['''', ''ftp'', ''hdl'', ''prospero'', ''http'', ''imap'', ''https'', ''shttp'',
                  ''rtsp'', ''rtsps'', ''rtspu'', ''sip'', ''sips'', ''mms'', ''sftp'', ''tel'']"

definition splitparams :: "string \<Rightarrow> string \<times> string" where
  \<comment> \<open>\<open>_splitparams\<close>: the parameters are cut at the first \<open>;\<close> of the last path segment\<close>
  "splitparams url =
     (let seg = after_last CHR ''/'' url; front = take (length url - length seg) url
      in if CHR '';'' \<in> set seg then (front @ before CHR '';'' seg, after CHR '';'' seg)
         else (url, []))"

record parse_result = split_result +
  params :: string

definition urlparse :: "pylib \<Rightarrow> string \<Rightarrow> exn + parse_result" where
  "urlparse lib url =
     (case urlsplit lib url of
        Inl e \<Rightarrow> Inl e
      | Inr r \<Rightarrow>
          (let pp = (if scheme r \<in> set uses_params \<and> CHR '';'' \<in> set (path r)
                     then splitparams (path r) else (path r, []))
           in Inr \<lparr>scheme = scheme r, netloc = netloc r, path = fst pp, query = query r,
                    fragment = fragment r, params = snd pp\<rparr>))"

definition urlparse_bytes :: "pylib \<Rightarrow> bytes \<Rightarrow> exn + parse_result" where
  \<comment> \<open>\<open>urlparse\<close> of a \<open>bytes\<close> argument: \<open>_coerce_args\<close> decodes it as strict ASCII and
      the result is encoded back\<close>
  "urlparse_bytes lib url = (if list_all is_ascii url then urlparse lib url else Inl UnicodeDecodeError)"

definition hostinfo :: "string \<Rightarrow> string \<times> string" where
  \<comment> \<open>\<open>_hostinfo\<close>, with the empty string for a missing port\<close>
  "hostinfo nl =
     (let hi = after_last CHR ''@'' nl
      in if CHR ''['' \<in> set hi
         then (before CHR '']'' (after CHR ''['' hi), after CHR '':'' (after CHR '']'' (after CHR ''['' hi)))
         else (before CHR '':'' hi, after CHR '':'' hi))"

definition hostname :: "pylib \<Rightarrow> parse_result \<Rightarrow> string option" where
  "hostname lib r =
     (let h = fst (hostinfo (netloc r))
      in if h = [] then None
         else Some (str_lower lib (before CHR ''%'' h) @ dropWhile (\<lambda>c. c \<noteq> CHR ''%'') h))"

definition port :: "parse_result \<Rightarrow> exn + nat option" where
  "port r =
     (let p = snd (hostinfo (netloc r))
      in if p = [] then Inr None
         else if list_all is_digit p then
           (case parse_digits False 0 p of
              Some n \<Rightarrow> if n \<le> 65535 then Inr (Some n) else Inl ValueError
            | None \<Rightarrow> Inl ValueError)
         else Inl ValueError)"

section \<open>hashlib.md5\<close>

text \<open>The MD5 digest of RFC 1321 on 32-bit words, and its lower-case hexadecimal form.\<close>

type_synonym u32 = "32 word"

definition md5_K :: "u32 list" where
  "md5_K = [0xD76AA478, 0xE8C7B756, 0x242070DB, 0xC1BDCEEE, 0xF57C0FAF, 0x4787C62A, 0xA8304613,
     0xFD469501, 0x698098D8, 0x8B44F7AF, 0xFFFF5BB1, 0x895CD7BE, 0x6B901122, 0xFD987193,
     0xA679438E, 0x49B40821, 0xF61E2562, 0xC040B340, 0x265E5A51, 0xE9B6C7AA, 0xD62F105D,
     0x02441453, 0xD8A1E681, 0xE7D3FBC8, 0x21E1CDE6, 0xC33707D6, 0xF4D50D87, 0x455A14ED,
     0xA9E3E905, 0xFCEFA3F8, 0x676F02D9, 0x8D2A4C8A, 0xFFFA3942, 0x8771F681, 0x6D9D6122,
     0xFDE5380C, 0xA4BEEA44, 0x4BDECFA9, 0xF6BB4B60, 0xBEBFBC70, 0x289B7EC6, 0xEAA127FA,
     0xD4EF3085, 0x04881D05, 0xD9D4D039, 0xE6DB99E5, 0x1FA27CF8, 0xC4AC5665, 0xF4292244,
     0x432AFF97, 0xAB9423A7, 0xFC93A039, 0x655B59C3, 0x8F0CCC92, 0xFFEFF47D, 0x85845DD1,
     0x6FA87E4F, 0xFE2CE6E0, 0xA3014314, 0x4E0811A1, 0xF7537E82, 0xBD3AF235, 0x2AD7D2BB,
     0xEB86D391]"

definition md5_S :: "nat list" where
  "md5_S = [7, 12, 17, 22, 7, 12, 17, 22, 7, 12, 17, 22, 7, 12, 17, 22,
            5, 9, 14, 20, 5, 9, 14, 20, 5, 9, 14, 20, 5, 9, 14, 20,
            4, 11, 16, 23, 4, 11, 16, 23, 4, 11, 16, 23, 4, 11, 16, 23,
            6, 10, 15, 21, 6, 10, 15, 21, 6, 10, 15, 21, 6, 10, 15, 21]"

definition le_word :: "bytes \<Rightarrow> u32" where
  "le_word bs = foldr (\<lambda>b w. of_nat (byte b) + 256 * w) bs 0"

definition le_bytes :: "nat \<Rightarrow> nat \<Rightarrow> bytes" where
  "le_bytes k n = map (\<lambda>i. char_of (n div 256 ^ i)) [0..<k]"

definition md5_pad :: "bytes \<Rightarrow> bytes" where
  "md5_pad m = m @ [char_of (128 :: nat)]
     @ replicate ((119 - length m mod 64) mod 64) (char_of (0 :: nat))
     @ le_bytes 8 (8 * length m)"

fun md5_blocks :: "nat \<Rightarrow> bytes \<Rightarrow> bytes list" where
  "md5_blocks 0 bs = []"
| "md5_blocks (Suc n) bs = take 64 bs # md5_blocks n (drop 64 bs)"

definition rotl32 :: "nat \<Rightarrow> u32 \<Rightarrow> u32" where
  "rotl32 n x = push_bit n x OR drop_bit (32 - n) x"

type_synonym md5_state = "u32 \<times> u32 \<times> u32 \<times> u32"

definition md5_step :: "u32 list \<Rightarrow> md5_state \<Rightarrow> nat \<Rightarrow> md5_state" where
  "md5_step M st i = (case st of (a, b, c, d) \<Rightarrow>
     (let f = (if i < 16 then (b AND c) OR (NOT b AND d)
               else if i < 32 then (d AND b) OR (NOT d AND c)
               else if i < 48 then b XOR c XOR d
               else c XOR (b OR NOT d));
          g = (if i < 16 then i
               else if i < 32 then (5 * i + 1) mod 16
               else if i < 48 then (3 * i + 5) mod 16
               else (7 * i) mod 16);
          x = f + a + md5_K ! i + M ! g
      in (d, b + rotl32 (md5_S ! i) x, b, c)))"

definition md5_block :: "md5_state \<Rightarrow> bytes \<Rightarrow> md5_state" where
  "md5_block st blk =
     (let M = map (\<lambda>j. le_word (take 4 (drop (4 * j) blk))) [0..<16] in
      case (st, foldl (md5_step M) st [0..<64]) of
        ((a0, b0, c0, d0), (a, b, c, d)) \<Rightarrow> (a0 + a, b0 + b, c0 + c, d0 + d))"

definition md5 :: "bytes \<Rightarrow> bytes" where
  "md5 m = (let p = md5_pad m in
     case foldl md5_block (0x67452301, 0xEFCDAB89, 0x98BADCFE, 0x10325476)
            (md5_blocks (length p div 64) p) of
       (a, b, c, d) \<Rightarrow> concat (map (\<lambda>w. le_bytes 4 (unat w)) [a, b, c, d]))"

definition hex_digit :: "nat \<Rightarrow> char" where
  "hex_digit n = ''0123456789abcdef'' ! (n mod 16)"

definition hexdigest :: "bytes \<Rightarrow> string" where
  "hexdigest bs = concat (map (\<lambda>b. [hex_digit (byte b div 16), hex_digit (byte b)]) bs)"

section \<open>The cache file name\<close>

definition cache_dir :: string where
  "cache_dir = ''cache''"

definition path_join :: "string \<Rightarrow> string \<Rightarrow> string" where
  \<comment> \<open>\<open>os.path.join\<close> of two components on POSIX\<close>
  "path_join a b =
     (if startswith b ''/'' then b
      else if a = [] \<or> last a = CHR ''/'' then a @ b
      else a @ ''/'' @ b)"

definition get_cache_filename :: "string \<Rightarrow> string" where
  "get_cache_filename url = (let cache_key = hexdigest (md5 url) in path_join cache_dir cache_key)"

section \<open>Sockets, files and the network\<close>

text \<open>
  A socket is described by what its peer does. \<open>incoming\<close> lists the results of the
  successive \<open>recv\<close> calls: \<open>Data d\<close> delivers the bytes \<open>d\<close> (\<open>Data []\<close> is the empty
  read of a peer that has closed), \<open>Reset\<close> makes the call raise. When the list is used up
  the peer stays silent and the call never returns. \<open>accepts\<close> bounds the number of
  \<open>sendall\<close> calls that still succeed (\<open>None\<close>: all of them); the following ones raise.
  \<open>outgoing\<close> collects the bytes delivered to the peer.
\<close>

datatype recv_event = Data bytes | Reset

record sock =
  incoming :: "recv_event list"
  accepts :: "nat option"
  outgoing :: bytes
  closed :: bool

record peer = sock +
  handshake :: bool

datatype 'a outcome = Ok 'a | Raise exn | Block

definition recv :: "nat \<Rightarrow> 'a sock_scheme \<Rightarrow> bytes outcome \<times> 'a sock_scheme" where
  "recv n s =
     (if closed s then (Raise OSError, s)
      else case incoming s of
        [] \<Rightarrow> (Block, s)
      | Reset # evs \<Rightarrow> (Raise OSError, s\<lparr>incoming := evs\<rparr>)
      | Data d # evs \<Rightarrow>
          if length d \<le> n then (Ok d, s\<lparr>incoming := evs\<rparr>)
          else (Ok (take n d), s\<lparr>incoming := Data (drop n d) # evs\<rparr>))"

definition sendall :: "bytes \<Rightarrow> 'a sock_scheme \<Rightarrow> unit outcome \<times> 'a sock_scheme" where
  "sendall d s =
     (if closed s then (Raise OSError, s)
      else case accepts s of
        None \<Rightarrow> (Ok (), s\<lparr>outgoing := outgoing s @ d\<rparr>)
      | Some 0 \<Rightarrow> (Raise OSError, s)
      | Some (Suc k) \<Rightarrow> (Ok (), s\<lparr>outgoing := outgoing s @ d, accepts := Some k\<rparr>))"

datatype disk = Writable | OpenFails | WriteFails

datatype log_event = TunnelError | Error404 | Error403 | Error500 | CacheSaveError | RequestError

text \<open>
  The world of one call of the dispatcher: the accepted client socket, the network
  (\<open>net\<close> gives the peer behind an address, or \<open>None\<close> when the connection fails), the
  upstream socket once connected, the addresses connected to so far, the files of the cache
  directory, whether the directory can be written, and the errors logged.
\<close>

record world =
  lib :: pylib
  client :: sock
  net :: "bytes \<times> nat \<Rightarrow> peer option"
  upstream :: peer
  connects :: "(bytes \<times> nat) list"
  files :: "string \<Rightarrow> bytes option"
  disk :: disk
  logged :: "log_event list"

definition and_then :: "'a outcome \<times> 'w \<Rightarrow> ('a \<Rightarrow> 'w \<Rightarrow> 'b outcome \<times> 'w) \<Rightarrow> 'b outcome \<times> 'w" where
  \<comment> \<open>sequencing: an exception or a call that never returns ends the computation\<close>
  "and_then m f = (case m of (Ok x, w) \<Rightarrow> f x w | (Raise e, w) \<Rightarrow> (Raise e, w) | (Block, w) \<Rightarrow> (Block, w))"

definition lift :: "exn + 'a \<Rightarrow> 'w \<Rightarrow> 'a outcome \<times> 'w" where
  "lift r w = (case r of Inl e \<Rightarrow> (Raise e, w) | Inr x \<Rightarrow> (Ok x, w))"

definition client_recv :: "nat \<Rightarrow> world \<Rightarrow> bytes outcome \<times> world" where
  "client_recv n w = (case recv n (client w) of (r, s) \<Rightarrow> (r, w\<lparr>client := s\<rparr>))"

definition client_sendall :: "bytes \<Rightarrow> world \<Rightarrow> unit outcome \<times> world" where
  "client_sendall d w = (case sendall d (client w) of (r, s) \<Rightarrow> (r, w\<lparr>client := s\<rparr>))"

definition client_close :: "world \<Rightarrow> world" where
  "client_close w = w\<lparr>client := (client w)\<lparr>closed := True\<rparr>\<rparr>"

definition upstream_recv :: "nat \<Rightarrow> world \<Rightarrow> bytes outcome \<times> world" where
  "upstream_recv n w = (case recv n (upstream w) of (r, s) \<Rightarrow> (r, w\<lparr>upstream := s\<rparr>))"

definition upstream_sendall :: "bytes \<Rightarrow> world \<Rightarrow> unit outcome \<times> world" where
  "upstream_sendall d w = (case sendall d (upstream w) of (r, s) \<Rightarrow> (r, w\<lparr>upstream := s\<rparr>))"

definition upstream_close :: "world \<Rightarrow> world" where
  "upstream_close w = w\<lparr>upstream := (upstream w)\<lparr>closed := True\<rparr>\<rparr>"

definition connect :: "bytes option \<Rightarrow> nat \<Rightarrow> world \<Rightarrow> unit outcome \<times> world" where
  \<comment> \<open>\<open>sock.connect((host, port))\<close> on a new socket: a host that is \<open>None\<close> is a
      TypeError, raised before anything reaches the network; a socket just connected is open
      and has sent nothing\<close>
  "connect host p w =
     (case host of
        None \<Rightarrow> (Raise TypeError, w)
      | Some h \<Rightarrow>
          (case net w (h, p) of
             None \<Rightarrow> (Raise OSError, w\<lparr>connects := connects w @ [(h, p)]\<rparr>)
           | Some pr \<Rightarrow>
               (Ok (), w\<lparr>connects := connects w @ [(h, p)],
                          upstream := pr\<lparr>outgoing := [], closed := False\<rparr>\<rparr>)))"

definition log :: "log_event \<Rightarrow> world \<Rightarrow> world" where
  \<comment> \<open>the calls of \<open>logging.error\<close>\<close>
  "log ev w = w\<lparr>logged := logged w @ [ev]\<rparr>"

text \<open>The amount of input a peer still holds; every read that returns bytes lowers it.\<close>

fun pending_event :: "recv_event \<Rightarrow> nat" where
  "pending_event (Data d) = Suc (length d)"
| "pending_event Reset = 1"

definition pending :: "'a sock_scheme \<Rightarrow> nat" where
  "pending s = sum_list (map pending_event (incoming s))"

lemma and_then_cong [fundef_cong]:
  "m = m' \<Longrightarrow> (\<And>x w. m' = (Ok x, w) \<Longrightarrow> f x w = f' x w) \<Longrightarrow> and_then m f = and_then m' f'"
  by (auto simp: and_then_def split: prod.splits outcome.splits)

lemma recv_pending_less:
  "recv n s = (Ok d, s') \<Longrightarrow> d \<noteq> [] \<Longrightarrow> pending s' < pending s"
  by (auto simp: recv_def pending_def split: if_splits list.splits recv_event.splits)

lemma recv_pending_le: "recv n s = (r, s') \<Longrightarrow> pending s' \<le> pending s"
  by (auto simp: recv_def pending_def split: if_splits list.splits recv_event.splits)

lemma sendall_pending: "sendall d s = (r, s') \<Longrightarrow> pending s' = pending s"
  by (auto simp: sendall_def pending_def split: if_splits option.splits nat.splits)

definition backlog :: "world \<Rightarrow> nat" where
  "backlog w = pending (client w) + pending (upstream w)"

lemma client_recv_backlog_less:
  "client_recv n w = (Ok d, w') \<Longrightarrow> d \<noteq> [] \<Longrightarrow> backlog w' < backlog w"
  by (auto simp: client_recv_def backlog_def split: prod.splits dest: recv_pending_less)

lemma upstream_recv_backlog_less:
  "upstream_recv n w = (Ok d, w') \<Longrightarrow> d \<noteq> [] \<Longrightarrow> backlog w' < backlog w"
  by (auto simp: upstream_recv_def backlog_def split: prod.splits dest: recv_pending_less)

lemma upstream_recv_backlog_le: "upstream_recv n w = (r, w') \<Longrightarrow> backlog w' \<le> backlog w"
  by (auto simp: upstream_recv_def backlog_def split: prod.splits dest: recv_pending_le)

lemma client_sendall_backlog: "client_sendall d w = (r, w') \<Longrightarrow> backlog w' = backlog w"
  by (auto simp: client_sendall_def backlog_def split: prod.splits dest: sendall_pending)

lemma upstream_sendall_backlog: "upstream_sendall d w = (r, w') \<Longrightarrow> backlog w' = backlog w"
  by (auto simp: upstream_sendall_def backlog_def split: prod.splits dest: sendall_pending)

section \<open>The tunnel: handle_https_request\<close>

definition established :: bytes where
  "established = ''HTTP/1.1 200 Connection Established'' @ CRLF @ CRLF"

definition error_500 :: bytes where
  "error_500 = ''HTTP/1.1 500 Internal Server Error'' @ CRLF @ CRLF"

definition error_405 :: bytes where
  "error_405 = ''HTTP/1.1 405 Method Not Allowed'' @ CRLF @ CRLF"

definition error_400 :: bytes where
  "error_400 = ''HTTP/1.1 400 Bad Request'' @ CRLF @ CRLF"

function relay :: "world \<Rightarrow> unit outcome \<times> world" where
  \<comment> \<open>the \<open>while True\<close> loop of lines 38-47\<close>
  "relay w =
     and_then (client_recv 4096 w) (\<lambda>client_data w1.
       if client_data = [] then (Ok (), w1)
       else and_then (upstream_sendall client_data w1) (\<lambda>_ w2.
            and_then (upstream_recv 4096 w2) (\<lambda>server_data w3.
              if server_data = [] then (Ok (), w3)
              else and_then (client_sendall server_data w3) (\<lambda>_ w4. relay w4))))"
  by pat_completeness auto
termination
proof (relation "measure backlog")
  show "wf (measure backlog)" by simp
next
  fix w client_data w1 u w2 server_data w3 v w4
  assume a: "client_recv 4096 w = (Ok client_data, w1)" "client_data \<noteq> []"
    "upstream_sendall client_data w1 = (Ok u, w2)"
    "upstream_recv 4096 w2 = (Ok server_data, w3)"
    "client_sendall server_data w3 = (Ok v, w4)"
  have "backlog w4 = backlog w3" using a(5) by (rule client_sendall_backlog)
  moreover have "backlog w3 \<le> backlog w2" using a(4) by (rule upstream_recv_backlog_le)
  moreover have "backlog w2 = backlog w1" using a(3) by (rule upstream_sendall_backlog)
  moreover have "backlog w1 < backlog w" using a(1,2) by (rule client_recv_backlog_less)
  ultimately show "(w4, w) \<in> measure backlog" by simp
qed

definition tunnel :: "bytes option \<Rightarrow> nat \<Rightarrow> world \<Rightarrow> unit outcome \<times> world" where
  \<comment> \<open>the body of the \<open>try\<close> statement, lines 32-47. When \<open>ssl.wrap_socket\<close> fails the
      connected socket is closed; once it has succeeded the \<open>with\<close> statement only holds
      the plain socket object, which the TLS socket has taken over.\<close>
  "tunnel host p w =
     and_then (connect host p w) (\<lambda>_ w1.
       if \<not> handshake (upstream w1) then (Raise OSError, upstream_close w1)
       else and_then (client_sendall established w1) (\<lambda>_ w2. relay w2))"

definition handle_https_request :: "bytes \<Rightarrow> bytes \<Rightarrow> world \<Rightarrow> unit outcome \<times> world" where
  "handle_https_request method url w =
     and_then (lift (urlparse_bytes (lib w) url) w) (\<lambda>parsed_url _.
     and_then (lift (port parsed_url) w) (\<lambda>pt _.
       (let host = hostname (lib w) parsed_url;
            p = (case pt of Some n \<Rightarrow> if n \<noteq> 0 then n else 443 | None \<Rightarrow> 443)
        in case tunnel host p w of
             (Ok _, w1) \<Rightarrow> (Ok (), client_close w1)
           | (Raise e, w1) \<Rightarrow>
               and_then (client_sendall error_500 (log TunnelError w1))
                 (\<lambda>_ w2. (Ok (), client_close w2))
           | (Block, w1) \<Rightarrow> (Block, w1))))"

section \<open>The dispatcher: handle_client_request\<close>

definition target_url :: "bytes \<Rightarrow> exn + string" where
  \<comment> \<open>the argument of \<open>urlparse\<close> in line 75\<close>
  "target_url url =
     (case decode url of
        Inl e \<Rightarrow> Inl e
      | Inr s \<Rightarrow> Inr (if startswith url ''http'' then s
                       else ''http://'' @ dropWhile (\<lambda>c. c = CHR ''/'') s))"

definition get_request :: "string \<Rightarrow> string \<Rightarrow> bytes" where
  "get_request pth host =
     ''GET '' @ pth @ '' HTTP/1.1'' @ CRLF @ ''Host: '' @ host @ CRLF
       @ ''Connection: close'' @ CRLF @ CRLF"

fun scan_content_length :: "bytes list \<Rightarrow> int \<Rightarrow> exn + int" where
  \<comment> \<open>the \<open>for header in headers\<close> loop of lines 105-107\<close>
  "scan_content_length [] content_length = Inr content_length"
| "scan_content_length (header # headers) content_length =
     (if contains ''Content-Length'' header then
        (case item (split_sep '':'' header) 1 of
           Inl e \<Rightarrow> Inl e
         | Inr v \<Rightarrow>
             (case py_int (strip v) of
                Inl e \<Rightarrow> Inl e
              | Inr n \<Rightarrow> scan_content_length headers n))
      else scan_content_length headers content_length)"

definition post_request :: "bytes \<Rightarrow> string \<Rightarrow> string \<Rightarrow> exn + bytes" where
  \<comment> \<open>lines 103-114\<close>
  "post_request request pth host =
     (let headers = tl (split_sep [LF] request)
      in case scan_content_length headers 0 of
           Inl e \<Rightarrow> Inl e
         | Inr content_length \<Rightarrow>
             (case (if 0 < content_length then item (split_sep (CRLF @ CRLF) request) 1 else Inr [])
              of Inl e \<Rightarrow> Inl e
               | Inr body \<Rightarrow>
                   Inr (''POST '' @ pth @ '' HTTP/1.1'' @ CRLF @ ''Host: '' @ host @ CRLF
                        @ ''Content-Length: '' @ str_int content_length @ CRLF
                        @ ''Connection: close'' @ CRLF @ CRLF @ body)))"

function recv_all :: "bytes \<Rightarrow> world \<Rightarrow> bytes outcome \<times> world" where
  \<comment> \<open>the \<open>while True\<close> loop of lines 119-123\<close>
  "recv_all response w =
     and_then (upstream_recv 4096 w) (\<lambda>data w1.
       if data = [] then (Ok response, w1) else recv_all (response @ data) w1)"
  by pat_completeness auto
termination
proof (relation "measure (\<lambda>(response, w). backlog w)")
  show "wf (measure (\<lambda>(response, w). backlog w))" by simp
next
  fix response w data w1
  assume "upstream_recv 4096 w = (Ok data, w1)" "data \<noteq> []"
  then have "backlog w1 < backlog w" by (rule upstream_recv_backlog_less)
  then show "((response @ data, w1), (response, w)) \<in> measure (\<lambda>(response, w). backlog w)"
    by simp
qed

definition diagnose :: "bytes \<Rightarrow> world \<Rightarrow> world" where
  \<comment> \<open>lines 126-131\<close>
  "diagnose response w =
     (if contains ''404 Not Found'' response then log Error404 w
      else if contains ''403 Forbidden'' response then log Error403 w
      else if contains ''500 Internal Server Error'' response then log Error500 w
      else w)"

definition cache_store :: "string \<Rightarrow> bytes \<Rightarrow> world \<Rightarrow> world" where
  \<comment> \<open>lines 134-141; the method is GET or POST here. A file opened for writing is
      truncated, so a write that fails leaves it empty.\<close>
  "cache_store cache_filename response w =
     (if response \<noteq> [] then
        (case disk w of
           Writable \<Rightarrow> w\<lparr>files := (files w)(cache_filename \<mapsto> response)\<rparr>
         | OpenFails \<Rightarrow> log CacheSaveError w
         | WriteFails \<Rightarrow> log CacheSaveError (w\<lparr>files := (files w)(cache_filename \<mapsto> [])\<rparr>))
      else w)"

definition leave_with :: "'a outcome \<times> world \<Rightarrow> 'a outcome \<times> world" where
  \<comment> \<open>leaving the \<open>with\<close> statement of line 96 closes the upstream socket\<close>
  "leave_with m = (case m of (Block, w) \<Rightarrow> (Block, w) | (r, w) \<Rightarrow> (r, upstream_close w))"

definition forward :: "bytes \<Rightarrow> bytes \<Rightarrow> string \<Rightarrow> string \<Rightarrow> string \<Rightarrow> world \<Rightarrow> unit outcome \<times> world" where
  \<comment> \<open>lines 96-143\<close>
  "forward request method host pth cache_filename w =
     and_then (connect (Some host) 80 w) (\<lambda>_ w1.
       leave_with
         (and_then (lift (if method = ''GET'' then Inr (get_request pth host)
                          else post_request request pth host) w1) (\<lambda>full_request w2.
          and_then (upstream_sendall full_request w2) (\<lambda>_ w3.
          and_then (recv_all [] w3) (\<lambda>response w4.
            client_sendall response (cache_store cache_filename response (diagnose response w4)))))))"

datatype flow = Return | Continue

definition dispatch :: "world \<Rightarrow> flow outcome \<times> world" where
  \<comment> \<open>the body of the \<open>try\<close> statement, lines 58-143: \<open>Return\<close> for a \<open>return\<close>
      statement, \<open>Continue\<close> when control reaches the end of the body\<close>
  "dispatch w =
     and_then (client_recv 4096 w) (\<lambda>request w1.
     and_then (lift (item (split_sep [LF] request) 0) w1) (\<lambda>first_line _.
       case split_ws first_line of
         [method, url, _] \<Rightarrow>
           if method = ''CONNECT'' then
             and_then (handle_https_request method url w1) (\<lambda>_ w2. (Ok Return, w2))
           else if method \<notin> set [''GET'', ''POST''] then
             and_then (client_sendall error_405 w1) (\<lambda>_ w2. (Ok Return, client_close w2))
           else
             and_then (lift (target_url url) w1) (\<lambda>target _.
             and_then (lift (urlparse (lib w1) target) w1) (\<lambda>parsed_url _.
               case hostname (lib w1) parsed_url of
                 None \<Rightarrow>
                   and_then (client_sendall error_400 w1) (\<lambda>_ w2. (Ok Return, client_close w2))
               | Some host \<Rightarrow>
                   (let pth = (if path parsed_url = [] then ''/'' else path parsed_url);
                        cache_filename = get_cache_filename url
                    in case (if method = ''GET'' then files w1 cache_filename else None) of
                         Some cached_response \<Rightarrow>
                           and_then (client_sendall cached_response w1)
                             (\<lambda>_ w2. (Ok Return, client_close w2))
                       | None \<Rightarrow>
                           and_then (forward request method host pth cache_filename w1)
                             (\<lambda>_ w2. (Ok Continue, w2)))))
       | _ \<Rightarrow> (Raise ValueError, w1)))"

definition handle_client_request :: "world \<Rightarrow> unit outcome \<times> world" where
  "handle_client_request w =
     (case dispatch w of
        (Ok Return, w1) \<Rightarrow> (Ok (), w1)
      | (Ok Continue, w1) \<Rightarrow> (Ok (), client_close w1)
      | (Raise e, w1) \<Rightarrow>
          and_then (client_sendall error_400 (log RequestError w1))
            (\<lambda>_ w2. (Ok (), client_close w2))
      | (Block, w1) \<Rightarrow> (Block, w1))"

section \<open>The cache key\<close>

lemma replicate_unroll: "replicate (numeral k) x = x # replicate (pred_numeral k) x"
  by (simp add: numeral_eq_Suc)

lemmas md5_eval = hexdigest_def md5_def md5_block_def md5_step_def md5_K_def md5_S_def rotl32_def
  md5_pad_def le_bytes_def le_word_def hex_digit_def byte_def upt_rec replicate_unroll

text \<open>The test vector of RFC 1321 for the message \<open>abc\<close>.\<close>

lemma md5_abc: "hexdigest (md5 ''abc'') = ''900150983cd24fb0d6963f7d28e17f72''"
  by (simp add: md5_eval)

lemma md5_url_x: "hexdigest (md5 ''http://a.example/x'') = ''3b0f361c22e1755442ab57b07ab1e3b9''"
  by (simp add: md5_eval)

lemma md5_url_y: "hexdigest (md5 ''http://a.example/y'') = ''c753bb6cbe6914eb64fe9b7aa4c9f77e''"
  by (simp add: md5_eval)

lemma length_le_bytes: "length (le_bytes k n) = k"
  by (simp add: le_bytes_def)

lemma length_md5: "length (md5 m) = 16"
  by (simp add: md5_def Let_def length_le_bytes split: prod.splits)

lemma length_hexdigest: "length (hexdigest bs) = 2 * length bs"
  by (induction bs) (simp_all add: hexdigest_def)

lemma hex_digit_in: "hex_digit n \<in> set ''0123456789abcdef''"
proof -
  have "n mod 16 < length ''0123456789abcdef''" by simp
  then show ?thesis unfolding hex_digit_def by (rule nth_mem)
qed

lemma hexdigest_chars: "list_all (\<lambda>c. c \<in> set ''0123456789abcdef'') (hexdigest bs)"
proof (induction bs)
  case Nil
  show ?case by (simp add: hexdigest_def)
next
  case (Cons b bs)
  have "hexdigest (b # bs) = hex_digit (byte b div 16) # hex_digit (byte b) # hexdigest bs"
    by (simp add: hexdigest_def)
  with Cons hex_digit_in [of "byte b div 16"] hex_digit_in [of "byte b"] show ?case
    by (simp del: set_simps)
qed

lemma cache_filename_eq: "get_cache_filename u = ''cache/'' @ hexdigest (md5 u)"
proof -
  have "length (hexdigest (md5 u)) = 32" by (simp add: length_hexdigest length_md5)
  then have "hexdigest (md5 u) \<noteq> []" by auto
  moreover have "list_all (\<lambda>c. c \<in> set ''0123456789abcdef'') (hexdigest (md5 u))"
    by (rule hexdigest_chars)
  ultimately show ?thesis
    by (cases "hexdigest (md5 u)")
       (auto simp: get_cache_filename_def path_join_def cache_dir_def startswith_def)
qed

text \<open>
  C9. The cache file of a target URL \<open>u\<close> is the file of the cache directory named by the
  MD5 digest of \<open>u\<close>, written as 32 lower-case hexadecimal digits. The name depends on
  nothing but \<open>u\<close>, and the two URLs of the test suite get different names.
\<close>

theorem cache_file_name_is_md5:
  "get_cache_filename u = ''cache/'' @ hexdigest (md5 u)
   \<and> length (hexdigest (md5 u)) = 32
   \<and> list_all (\<lambda>c. c \<in> set ''0123456789abcdef'') (hexdigest (md5 u))
   \<and> get_cache_filename ''http://a.example/x'' = ''cache/3b0f361c22e1755442ab57b07ab1e3b9''
   \<and> get_cache_filename ''http://a.example/y'' = ''cache/c753bb6cbe6914eb64fe9b7aa4c9f77e''
   \<and> get_cache_filename ''http://a.example/x'' \<noteq> get_cache_filename ''http://a.example/y''"
proof -
  have "length (hexdigest (md5 u)) = 32" by (simp add: length_hexdigest length_md5)
  moreover have "get_cache_filename ''http://a.example/x'' = ''cache/3b0f361c22e1755442ab57b07ab1e3b9''"
    by (simp add: cache_filename_eq md5_url_x)
  moreover have "get_cache_filename ''http://a.example/y'' = ''cache/c753bb6cbe6914eb64fe9b7aa4c9f77e''"
    by (simp add: cache_filename_eq md5_url_y)
  ultimately show ?thesis
    using cache_filename_eq [of u] hexdigest_chars [of "md5 u"] by simp
qed

section \<open>Running the dispatcher on concrete worlds\<close>

declare relay.simps [simp del] recv_all.simps [simp del]

lemma and_then_weak_cong [cong]: "m = m' \<Longrightarrow> and_then m f = and_then m' f"
  by simp

lemma and_then_simps [simp]:
  "and_then (Ok x, w) f = f x w"
  "and_then (Raise e, w) f = (Raise e, w)"
  "and_then (Block, w) f = (Block, w)"
  by (simp_all add: and_then_def)

definition plain_lib :: pylib where
  "plain_lib = \<lparr>unicode_lower = (\<lambda>s. s), nfkc = (\<lambda>s. s), ip_address = (\<lambda>h. None)\<rparr>"

definition talking :: "recv_event list \<Rightarrow> nat option \<Rightarrow> sock" where
  \<comment> \<open>a client that sends the given chunks and accepts the given number of replies\<close>
  "talking evs k = \<lparr>incoming = evs, accepts = k, outgoing = [], closed = False\<rparr>"

definition origin :: "recv_event list \<Rightarrow> peer" where
  \<comment> \<open>an origin that completes the TLS handshake, reads everything and sends the given chunks\<close>
  "origin evs = \<lparr>incoming = evs, accepts = None, outgoing = [], closed = False, handshake = True\<rparr>"

definition only :: "bytes \<times> nat \<Rightarrow> peer \<Rightarrow> bytes \<times> nat \<Rightarrow> peer option" where
  \<comment> \<open>a network in which a single address can be reached\<close>
  "only addr p = (\<lambda>a. if a = addr then Some p else None)"

definition start :: "sock \<Rightarrow> (bytes \<times> nat \<Rightarrow> peer option) \<Rightarrow> world" where
  \<comment> \<open>a freshly accepted client, an empty cache directory, nothing connected or logged\<close>
  "start c n = \<lparr>lib = plain_lib, client = c, net = n, upstream = origin [],
     connects = [], files = Map.empty, disk = Writable, logged = []\<rparr>"

lemmas fixture_eval = plain_lib_def talking_def origin_def only_def start_def

lemmas byte_eval = byte_def is_space_def is_ascii_def is_digit_def is_upper_def is_alpha_def
  is_hex_def ascii_lower_def CR_def LF_def CRLF_def startswith_def split_ws_def split_sep_def
  item_def strip_def py_int_def str_int_def cont_def decode_def char_of_def bit_iff_odd

lemmas url_eval = before_def after_def after_last_def str_lower_def is_scheme_char_def
  check_bracketed_host_def checknetloc_def clean_url_def split_scheme_def splitnetloc_def
  brackets_ok_def urlsplit_def uses_params_def splitparams_def
  urlparse_def urlparse_bytes_def hostinfo_def hostname_def port_def Let_def

lemmas io_eval = recv_def sendall_def lift_def client_recv_def client_sendall_def
  client_close_def upstream_recv_def upstream_sendall_def upstream_close_def connect_def log_def
  established_def error_500_def error_405_def error_400_def tunnel_def handle_https_request_def
  target_url_def get_request_def post_request_def diagnose_def cache_store_def leave_with_def
  forward_def dispatch_def handle_client_request_def relay.simps recv_all.simps

section \<open>Facts about the socket operations\<close>

lemma split_from_nonempty: "split_from sep k cur b \<noteq> []"
  by (induction b arbitrary: k cur) auto

lemma item_split_sep_0: "item (split_sep sep b) 0 = Inr (hd (split_sep sep b))"
  using split_from_nonempty [of sep 0 "[]" b]
  by (cases "split_sep sep b") (auto simp: item_def split_sep_def)

lemma recv_Ok:
  "recv n c = (Ok d, s) \<Longrightarrow>
     \<not> closed c \<and> \<not> closed s \<and> accepts s = accepts c \<and> outgoing s = outgoing c"
  by (auto simp: recv_def split: if_splits list.splits recv_event.splits)

lemma recv_Raise: "recv n c = (Raise e, s) \<Longrightarrow> e = OSError \<and> outgoing s = outgoing c \<and> accepts s = accepts c \<and> closed s = closed c"
  by (auto simp: recv_def split: if_splits list.splits recv_event.splits)

lemma sendall_Raise: "sendall d c = (Raise e, s) \<Longrightarrow> e = OSError \<and> s = c"
  by (auto simp: sendall_def split: if_splits option.splits nat.splits)

lemma sendall_live:
  "\<not> closed c \<Longrightarrow> accepts c \<noteq> Some 0 \<Longrightarrow>
     sendall d c = (Ok (), c\<lparr>outgoing := outgoing c @ d, accepts := map_option (\<lambda>k. k - 1) (accepts c)\<rparr>)"
  by (cases "accepts c") (auto simp: sendall_def split: nat.splits)

lemma sendall_dead: "closed c \<or> accepts c = Some 0 \<Longrightarrow> sendall d c = (Raise OSError, c)"
  by (auto simp: sendall_def)

lemma client_recv_Ok:
  "client_recv n w = (Ok d, w1) \<Longrightarrow>
     \<not> closed (client w) \<and> \<not> closed (client w1) \<and> accepts (client w1) = accepts (client w)
     \<and> outgoing (client w1) = outgoing (client w) \<and> connects w1 = connects w
     \<and> files w1 = files w \<and> lib w1 = lib w \<and> net w1 = net w \<and> disk w1 = disk w
     \<and> upstream w1 = upstream w \<and> logged w1 = logged w"
  by (auto simp: client_recv_def split: prod.splits dest: recv_Ok)

lemma client_sendall_live:
  "\<not> closed (client w) \<Longrightarrow> accepts (client w) \<noteq> Some 0 \<Longrightarrow>
     client_sendall d w = (Ok (), w\<lparr>client := (client w)\<lparr>outgoing := outgoing (client w) @ d,
        accepts := map_option (\<lambda>k. k - 1) (accepts (client w))\<rparr>\<rparr>)"
  by (simp add: client_sendall_def sendall_live)

lemma client_sendall_dead:
  "closed (client w) \<or> accepts (client w) = Some 0 \<Longrightarrow> client_sendall d w = (Raise OSError, w)"
  by (simp add: client_sendall_def sendall_dead)

lemma client_recv_fst:
  "fst (client_recv n w) = Ok d \<Longrightarrow> \<exists>w1. client_recv n w = (Ok d, w1)"
  by (cases "client_recv n w") simp

section \<open>Unsupported methods\<close>

text \<open>
  C7 (as amended). When the request line has three tokens and the method is none of
  \<open>CONNECT\<close>, \<open>GET\<close> and \<open>POST\<close> (compared byte by byte), the dispatcher opens no
  connection to any origin; and if the client still accepts the reply, it is sent exactly
  the 405 response, after which the connection is closed.
\<close>

theorem unsupported_method_405:
  assumes r: "fst (client_recv 4096 w) = Ok request"
    and l: "split_ws (hd (split_sep [LF] request)) = [method, url, version]"
    and m: "method \<noteq> ''CONNECT''" "method \<noteq> ''GET''" "method \<noteq> ''POST''"
  shows "connects (snd (handle_client_request w)) = connects w
    \<and> (accepts (client w) \<noteq> Some 0 \<longrightarrow>
          fst (handle_client_request w) = Ok ()
          \<and> outgoing (client (snd (handle_client_request w))) = outgoing (client w) @ error_405
          \<and> closed (client (snd (handle_client_request w))))"
proof -
  from r obtain w1 where r1: "client_recv 4096 w = (Ok request, w1)"
    by (auto dest: client_recv_fst)
  then have c: "\<not> closed (client w1)" "accepts (client w1) = accepts (client w)"
    "outgoing (client w1) = outgoing (client w)" "connects w1 = connects w"
    by (auto dest: client_recv_Ok)
  have d: "dispatch w = and_then (client_sendall error_405 w1) (\<lambda>_ w2. (Ok Return, client_close w2))"
    using r1 l m by (simp add: dispatch_def item_split_sep_0 lift_def)
  show ?thesis
  proof (cases "accepts (client w) = Some 0")
    case True
    then have "client_sendall error_405 w1 = (Raise OSError, w1)"
      and "client_sendall error_400 (log RequestError w1) = (Raise OSError, log RequestError w1)"
      using c by (simp_all add: client_sendall_dead log_def)
    then show ?thesis using True c d
      by (simp add: handle_client_request_def log_def)
  next
    case False
    then show ?thesis using c d
      by (simp add: handle_client_request_def client_sendall_live client_close_def)
  qed
qed

definition delete_x :: world where
  "delete_x = start (talking [Data (''DELETE http://a.example/x HTTP/1.1'' @ CRLF @ CRLF)] None)
     (only (''a.example'', 80) (origin [Data []]))"

theorem unsupported_method_405_witness:
  "fst (client_recv 4096 delete_x) = Ok (''DELETE http://a.example/x HTTP/1.1'' @ CRLF @ CRLF)
   \<and> accepts (client delete_x) \<noteq> Some 0
   \<and> connects (snd (handle_client_request delete_x)) = []
   \<and> fst (handle_client_request delete_x) = Ok ()
   \<and> outgoing (client (snd (handle_client_request delete_x))) = error_405
   \<and> closed (client (snd (handle_client_request delete_x)))"
proof -
  have r: "fst (client_recv 4096 delete_x) = Ok (''DELETE http://a.example/x HTTP/1.1'' @ CRLF @ CRLF)"
    by (simp add: delete_x_def fixture_eval client_recv_def recv_def CRLF_def)
  have l: "split_ws (hd (split_sep [LF] (''DELETE http://a.example/x HTTP/1.1'' @ CRLF @ CRLF)))
      = [''DELETE'', ''http://a.example/x'', ''HTTP/1.1'']"
    by (simp add: byte_eval)
  have o: "accepts (client delete_x) \<noteq> Some 0" "outgoing (client delete_x) = []"
    "connects delete_x = []"
    by (simp_all add: delete_x_def fixture_eval)
  show ?thesis
    using unsupported_method_405 [OF r l] r o by simp
qed

definition delete_gone :: world where
  \<comment> \<open>the same request from a client that is gone before the reply\<close>
  "delete_gone = start (talking [Data (''DELETE http://a.example/x HTTP/1.1'' @ CRLF @ CRLF)] (Some 0))
     (only (''a.example'', 80) (origin [Data []]))"

text \<open>
  The claim as first stated promises the 405 response and the closed connection for every
  such request. When the client is gone before the reply, the send of line 70 fails, the
  send of the handler fails as well, and the call ends with that error: nothing is
  delivered and the socket is not closed.
\<close>

theorem unsupported_method_client_gone:
  "fst (client_recv 4096 delete_gone) = Ok (''DELETE http://a.example/x HTTP/1.1'' @ CRLF @ CRLF)
   \<and> fst (handle_client_request delete_gone) = Raise OSError
   \<and> outgoing (client (snd (handle_client_request delete_gone))) = []
   \<and> \<not> closed (client (snd (handle_client_request delete_gone)))"
  by (simp add: delete_gone_def fixture_eval byte_eval io_eval)

section \<open>The exceptions a call can raise\<close>

definition raises_only :: "exn set \<Rightarrow> 'a outcome \<times> 'w \<Rightarrow> bool" where
  "raises_only S m = (case m of (Raise e, w) \<Rightarrow> e \<in> S | _ \<Rightarrow> True)"

lemma raises_only_simps [simp]:
  "raises_only S (Ok x, w)" "raises_only S (Block, w)" "raises_only S (Raise e, w) = (e \<in> S)"
  by (simp_all add: raises_only_def)

lemma raises_only_and_then:
  "raises_only S m \<Longrightarrow> (\<And>x w. m = (Ok x, w) \<Longrightarrow> raises_only S (f x w)) \<Longrightarrow>
     raises_only S (and_then m f)"
  by (cases m) (auto simp: and_then_def split: outcome.splits)

lemma raises_only_mono: "raises_only S m \<Longrightarrow> S \<subseteq> T \<Longrightarrow> raises_only T m"
  by (auto simp: raises_only_def split: prod.splits outcome.splits)

lemma raises_only_recv: "raises_only {OSError} (recv n s)"
  by (auto simp: recv_def raises_only_def split: list.splits recv_event.splits)

lemma raises_only_sendall: "raises_only {OSError} (sendall d s)"
  by (auto simp: sendall_def raises_only_def split: option.splits nat.splits)

lemma raises_only_client_recv: "raises_only {OSError} (client_recv n w)"
  using raises_only_recv [of n "client w"]
  by (auto simp: client_recv_def raises_only_def split: prod.splits outcome.splits)

lemma raises_only_upstream_recv: "raises_only {OSError} (upstream_recv n w)"
  using raises_only_recv [of n "upstream w"]
  by (auto simp: upstream_recv_def raises_only_def split: prod.splits outcome.splits)

lemma raises_only_client_sendall: "raises_only {OSError} (client_sendall d w)"
  using raises_only_sendall [of d "client w"]
  by (auto simp: client_sendall_def raises_only_def split: prod.splits outcome.splits)

lemma raises_only_upstream_sendall: "raises_only {OSError} (upstream_sendall d w)"
  using raises_only_sendall [of d "upstream w"]
  by (auto simp: upstream_sendall_def raises_only_def split: prod.splits outcome.splits)

lemmas raises_only_io = raises_only_client_recv raises_only_upstream_recv
  raises_only_client_sendall raises_only_upstream_sendall

lemma raises_only_relay: "raises_only {OSError} (relay w)"
proof (induction w rule: relay.induct)
  case (1 w)
  show ?case
    by (subst relay.simps) (intro raises_only_and_then raises_only_io impI | simp | (rule "1.IH"; assumption))+
qed

lemma raises_only_recv_all: "raises_only {OSError} (recv_all acc w)"
proof (induction acc w rule: recv_all.induct)
  case (1 response w)
  show ?case
    by (subst recv_all.simps) (intro raises_only_and_then raises_only_io impI | simp | (rule "1.IH"; assumption))+
qed

lemma lift_cases:
  "lift r w = (Raise e, w') \<longleftrightarrow> r = Inl e \<and> w' = w"
  "lift r w = (Ok x, w') \<longleftrightarrow> r = Inr x \<and> w' = w"
  "lift r w \<noteq> (Block, w')"
  by (auto simp: lift_def split: sum.splits)

lemma raises_only_connect: "raises_only {OSError, TypeError} (connect h p w)"
  by (auto simp: connect_def raises_only_def split: option.splits)

lemma raises_only_connect_Some: "raises_only {OSError} (connect (Some h) p w)"
  by (auto simp: connect_def raises_only_def split: option.splits)

lemma connect_client: "connect h p w = (r, w') \<Longrightarrow> client w' = client w"
  by (auto simp: connect_def split: option.splits)

lemma handle_https_request_Raise:
  assumes "handle_https_request m url w = (Raise e, w')" "e \<noteq> OSError"
  shows "w' = w"
proof -
  have t: "raises_only {OSError} (case tunnel h p w of
             (Ok _, w1) \<Rightarrow> (Ok (), client_close w1)
           | (Raise e, w1) \<Rightarrow>
               and_then (client_sendall error_500 (log TunnelError w1))
                 (\<lambda>_ w2. (Ok (), client_close w2))
           | (Block, w1) \<Rightarrow> (Block, w1))" for h p
    by (auto split: prod.splits outcome.splits intro!: raises_only_and_then raises_only_io)
  show ?thesis
  proof (cases "urlparse_bytes (lib w) url")
    case (Inl a)
    with assms show ?thesis by (simp add: handle_https_request_def lift_def)
  next
    case (Inr r)
    show ?thesis
    proof (cases "port r")
      case (Inl a)
      with Inr assms show ?thesis by (simp add: handle_https_request_def lift_def)
    next
      case pr: (Inr pt)
      from t [of "hostname (lib w) r" "case pt of Some n \<Rightarrow> if n \<noteq> 0 then n else 443 | None \<Rightarrow> 443"]
      show ?thesis using assms Inr pr
        by (simp add: handle_https_request_def lift_def Let_def)
    qed
  qed
qed

lemma and_then_Raise:
  "and_then m f = (Raise e, w') \<Longrightarrow>
     m = (Raise e, w') \<or> (\<exists>x w1. m = (Ok x, w1) \<and> f x w1 = (Raise e, w'))"
  by (auto simp: and_then_def split: prod.splits outcome.splits)

lemma raises_onlyD: "m = (Raise e, w) \<Longrightarrow> raises_only S m \<Longrightarrow> e \<in> S"
  by simp

lemma client_sendall_Raise: "client_sendall d w = (Raise e, w') \<Longrightarrow> e = OSError"
  using raises_onlyD [OF _ raises_only_client_sendall] by fastforce

lemma upstream_sendall_Raise: "upstream_sendall d w = (Raise e, w') \<Longrightarrow> e = OSError"
  using raises_onlyD [OF _ raises_only_upstream_sendall] by fastforce

lemma recv_all_Raise: "recv_all acc w = (Raise e, w') \<Longrightarrow> e = OSError"
  using raises_onlyD [OF _ raises_only_recv_all] by fastforce

lemma connect_Some_Raise: "connect (Some h) p w = (Raise e, w') \<Longrightarrow> e = OSError"
  using raises_onlyD [OF _ raises_only_connect_Some] by fastforce

lemma leave_with_Raise:
  "leave_with m = (Raise e, w') \<longleftrightarrow> (\<exists>w1. m = (Raise e, w1) \<and> w' = upstream_close w1)"
  by (cases m) (auto simp: leave_with_def split: outcome.splits)

lemma forward_Raise:
  assumes "forward request method host pth fn w = (Raise e, w')" "e \<noteq> OSError"
  shows "client w' = client w"
proof -
  from assms obtain u w1 where c: "connect (Some host) 80 w = (Ok u, w1)"
    and l: "leave_with
         (and_then (lift (if method = ''GET'' then Inr (get_request pth host)
                          else post_request request pth host) w1) (\<lambda>full_request w2.
          and_then (upstream_sendall full_request w2) (\<lambda>_ w3.
          and_then (recv_all [] w3) (\<lambda>response w4.
            client_sendall response (cache_store fn response (diagnose response w4)))))) = (Raise e, w')"
    by (auto simp: forward_def dest!: and_then_Raise connect_Some_Raise)
  from c have cw: "client w1 = client w" by (rule connect_client)
  from l assms(2) have "w' = upstream_close w1"
    by (auto simp: leave_with_Raise lift_cases
        dest!: and_then_Raise upstream_sendall_Raise recv_all_Raise client_sendall_Raise)
  with cw show ?thesis by (simp add: upstream_close_def)
qed

lemma dispatch_Raise:
  assumes "dispatch w = (Raise e, w')" "e \<noteq> OSError"
  shows "\<exists>request w1. client_recv 4096 w = (Ok request, w1) \<and> client w' = client w1"
proof -
  from assms obtain request w1 where r: "client_recv 4096 w = (Ok request, w1)"
    using raises_only_client_recv [of 4096 w]
    by (cases "client_recv 4096 w") (auto simp: dispatch_def and_then_def split: outcome.splits)
  from assms r have "client w' = client w1"
    by (auto simp: dispatch_def item_split_sep_0 lift_def Let_def
        split: list.splits if_splits sum.splits option.splits
        dest!: and_then_Raise
        dest: handle_https_request_Raise forward_Raise client_sendall_Raise)
  with r show ?thesis by blast
qed

section \<open>Malformed requests\<close>

lemma handle_after_Raise:
  assumes d: "dispatch w = (Raise e, w1)" and e: "e \<noteq> OSError"
    and live: "accepts (client w) \<noteq> Some 0"
  shows "fst (handle_client_request w) = Ok ()
    \<and> outgoing (client (snd (handle_client_request w))) = outgoing (client w) @ error_400
    \<and> closed (client (snd (handle_client_request w)))"
proof -
  from dispatch_Raise [OF d e] obtain request w0
    where r: "client_recv 4096 w = (Ok request, w0)" and c: "client w1 = client w0"
    by blast
  from r c live have l: "\<not> closed (client (log RequestError w1))"
    "accepts (client (log RequestError w1)) \<noteq> Some 0"
    "outgoing (client (log RequestError w1)) = outgoing (client w)"
    by (auto simp: log_def dest: client_recv_Ok)
  show ?thesis
    using l by (simp add: handle_client_request_def d client_sendall_live client_close_def)
qed

text \<open>
  C8 (as amended). For a request whose first line does not split into exactly three
  tokens, and for a request whose handling raises a parse exception (a value, index or
  decoding error): if the client still accepts the reply, it is sent exactly the 400
  response, after which the connection is closed.
\<close>

theorem malformed_request_400:
  assumes live: "accepts (client w) \<noteq> Some 0"
    and bad: "(\<exists>request. fst (client_recv 4096 w) = Ok request
                 \<and> length (split_ws (hd (split_sep [LF] request))) \<noteq> 3)
            \<or> (\<exists>e w1. dispatch w = (Raise e, w1) \<and> e \<in> {ValueError, IndexError, UnicodeDecodeError})"
  shows "fst (handle_client_request w) = Ok ()
    \<and> outgoing (client (snd (handle_client_request w))) = outgoing (client w) @ error_400
    \<and> closed (client (snd (handle_client_request w)))"
proof -
  from bad obtain e w1 where d: "dispatch w = (Raise e, w1)" and e: "e \<noteq> OSError"
  proof
    assume "\<exists>request. fst (client_recv 4096 w) = Ok request
                 \<and> length (split_ws (hd (split_sep [LF] request))) \<noteq> 3"
    then obtain request w1 where r: "client_recv 4096 w = (Ok request, w1)"
      and n: "length (split_ws (hd (split_sep [LF] request))) \<noteq> 3"
      by (auto dest: client_recv_fst)
    from r n have "dispatch w = (Raise ValueError, w1)"
      by (auto simp: dispatch_def item_split_sep_0 lift_def split: list.splits)
    then show ?thesis using that by simp
  next
    assume "\<exists>e w1. dispatch w = (Raise e, w1) \<and> e \<in> {ValueError, IndexError, UnicodeDecodeError}"
    then show ?thesis using that by auto
  qed
  then show ?thesis using live by (rule handle_after_Raise)
qed

definition single_token :: world where
  "single_token = start (talking [Data ''X''] None) (\<lambda>a. None)"

theorem malformed_request_400_witness:
  "accepts (client single_token) \<noteq> Some 0
   \<and> fst (client_recv 4096 single_token) = Ok ''X''
   \<and> length (split_ws (hd (split_sep [LF] ''X''))) \<noteq> 3
   \<and> fst (handle_client_request single_token) = Ok ()
   \<and> outgoing (client (snd (handle_client_request single_token))) = error_400
   \<and> closed (client (snd (handle_client_request single_token)))"
proof -
  have live: "accepts (client single_token) \<noteq> Some 0"
    by (simp add: single_token_def fixture_eval)
  have r: "fst (client_recv 4096 single_token) = Ok ''X''"
    by (simp add: single_token_def fixture_eval client_recv_def recv_def)
  have n: "length (split_ws (hd (split_sep [LF] ''X''))) \<noteq> 3"
    by (simp add: byte_eval)
  have o: "outgoing (client single_token) = []"
    by (simp add: single_token_def fixture_eval)
  from r n have bad: "(\<exists>request. fst (client_recv 4096 single_token) = Ok request
                 \<and> length (split_ws (hd (split_sep [LF] request))) \<noteq> 3)
            \<or> (\<exists>e w1. dispatch single_token = (Raise e, w1) \<and> e \<in> {ValueError, IndexError, UnicodeDecodeError})"
    by blast
  show ?thesis
    using malformed_request_400 [OF live bad] live r n o by simp
qed

definition two_tokens_gone :: world where
  \<comment> \<open>a request line of two tokens from a client that is gone before the reply\<close>
  "two_tokens_gone = start (talking [Data (''GET http://a.example/x'' @ CRLF @ CRLF)] (Some 0)) (\<lambda>a. None)"

text \<open>
  The claim as first stated promises the 400 response and the closed connection for every
  such request. When the client is gone before the reply, the send of the handler fails
  and the call ends with that error: nothing is delivered and the socket is not closed.
\<close>

theorem malformed_request_client_gone:
  "fst (client_recv 4096 two_tokens_gone) = Ok (''GET http://a.example/x'' @ CRLF @ CRLF)
   \<and> length (split_ws (hd (split_sep [LF] (''GET http://a.example/x'' @ CRLF @ CRLF)))) \<noteq> 3
   \<and> fst (handle_client_request two_tokens_gone) = Raise OSError
   \<and> outgoing (client (snd (handle_client_request two_tokens_gone))) = []
   \<and> \<not> closed (client (snd (handle_client_request two_tokens_gone)))"
  by (simp add: two_tokens_gone_def fixture_eval byte_eval io_eval)

section \<open>The connections a call opens\<close>

lemma client_sendall_connects: "connects (snd (client_sendall d w)) = connects w"
  by (cases "sendall d (client w)") (simp add: client_sendall_def)

lemma handle_tail_connects:
  "connects (snd (handle_client_request w)) = connects (snd (dispatch w))"
proof (cases "dispatch w")
  case (Pair r w1)
  have "connects (snd (and_then (client_sendall error_400 (log RequestError w1))
            (\<lambda>_ w2. (Ok (), client_close w2)))) = connects w1"
    using client_sendall_connects [of error_400 "log RequestError w1"]
    by (cases "client_sendall error_400 (log RequestError w1)")
       (auto simp: and_then_def log_def client_close_def split: outcome.splits)
  with Pair show ?thesis
    by (auto simp: handle_client_request_def client_close_def split: outcome.splits flow.splits)
qed

lemma and_then_connects:
  assumes "connects (snd m) = c"
    and "\<And>x w1. m = (Ok x, w1) \<Longrightarrow> connects (snd (f x w1)) = connects w1"
  shows "connects (snd (and_then m f)) = c"
  using assms by (cases m) (auto simp: and_then_def split: outcome.splits)

lemma upstream_recv_connects: "connects (snd (upstream_recv n w)) = connects w"
  by (cases "recv n (upstream w)") (simp add: upstream_recv_def)

lemma upstream_sendall_connects: "connects (snd (upstream_sendall d w)) = connects w"
  by (cases "sendall d (upstream w)") (simp add: upstream_sendall_def)

lemma lift_connects: "connects (snd (lift r w)) = connects w"
  by (cases r) (simp_all add: lift_def)

lemma recv_all_connects: "connects (snd (recv_all acc w)) = connects w"
proof (induction acc w rule: recv_all.induct)
  case (1 response w)
  show ?case
    unfolding recv_all.simps [of response w]
  proof (rule and_then_connects [OF upstream_recv_connects])
    fix data w1
    assume a: "upstream_recv 4096 w = (Ok data, w1)"
    show "connects (snd (if data = [] then (Ok response, w1) else recv_all (response @ data) w1))
        = connects w1"
      using "1.IH" [OF a] by simp
  qed
qed

lemma store_connects: "connects (cache_store fn r (diagnose r w)) = connects w"
  by (auto simp: cache_store_def diagnose_def log_def split: disk.splits)

lemma leave_with_connects: "connects (snd (leave_with m)) = connects (snd m)"
  by (cases m) (auto simp: leave_with_def upstream_close_def split: outcome.splits)

lemma forward_connects:
  "connects (snd (forward request m host pth fn w)) = connects w @ [(host, 80)]"
proof -
  have rest: "connects (snd (leave_with
         (and_then (lift q w1) (\<lambda>full_request w2.
          and_then (upstream_sendall full_request w2) (\<lambda>_ w3.
          and_then (recv_all [] w3) (\<lambda>response w4.
            client_sendall response (cache_store fn response (diagnose response w4)))))))) = connects w1"
    for q w1
    unfolding leave_with_connects
    by (intro and_then_connects lift_connects upstream_sendall_connects recv_all_connects)
       (simp add: client_sendall_connects store_connects)
  show ?thesis
  proof (cases "net w (host, 80)")
    case None
    then show ?thesis by (simp add: forward_def connect_def)
  next
    case (Some pr)
    then show ?thesis using rest by (simp add: forward_def connect_def)
  qed
qed

section \<open>Serving from the cache\<close>

text \<open>
  C1 (as amended). After a response for a target URL has been stored in the cache, a valid
  GET request for the same literal URL opens no connection to the origin, and a client that
  still accepts the reply is sent the stored bytes verbatim, after which the connection is
  closed. The cache is read for GET only: a valid POST request for the same URL always opens
  a connection to the origin.
\<close>

theorem cached_get_served_from_cache:
  assumes r: "fst (client_recv 4096 w) = Ok request"
    and l: "split_ws (hd (split_sep [LF] request)) = [method, url, version]"
    and t: "target_url url = Inr target"
    and p: "urlparse (lib w) target = Inr parsed_url"
    and h: "hostname (lib w) parsed_url = Some host"
    and c: "files w (get_cache_filename url) = Some payload"
  shows "(method = ''GET'' \<longrightarrow>
            connects (snd (handle_client_request w)) = connects w
            \<and> (accepts (client w) \<noteq> Some 0 \<longrightarrow>
                  fst (handle_client_request w) = Ok ()
                  \<and> outgoing (client (snd (handle_client_request w))) = outgoing (client w) @ payload
                  \<and> closed (client (snd (handle_client_request w)))))
       \<and> (method = ''POST'' \<longrightarrow>
            connects (snd (handle_client_request w)) = connects w @ [(host, 80)])"
proof -
  from r obtain w1 where r1: "client_recv 4096 w = (Ok request, w1)"
    by (auto dest: client_recv_fst)
  then have w1: "\<not> closed (client w1)" "accepts (client w1) = accepts (client w)"
    "outgoing (client w1) = outgoing (client w)" "connects w1 = connects w"
    "files w1 = files w" "lib w1 = lib w"
    by (auto dest: client_recv_Ok)
  have get: ?thesis if m: "method = ''GET''"
  proof -
    have d: "dispatch w = and_then (client_sendall payload w1) (\<lambda>_ w2. (Ok Return, client_close w2))"
      using r1 l t p h c w1 m
      by (simp add: dispatch_def item_split_sep_0 lift_def Let_def)
    have "connects (snd (dispatch w)) = connects w1"
      unfolding d by (rule and_then_connects [OF client_sendall_connects]) (simp add: client_close_def)
    then have "connects (snd (handle_client_request w)) = connects w"
      using w1 by (simp add: handle_tail_connects)
    moreover have "fst (handle_client_request w) = Ok ()
                  \<and> outgoing (client (snd (handle_client_request w))) = outgoing (client w) @ payload
                  \<and> closed (client (snd (handle_client_request w)))"
      if "accepts (client w) \<noteq> Some 0"
      using that w1 d by (simp add: handle_client_request_def client_sendall_live client_close_def)
    ultimately show ?thesis using m by simp
  qed
  have post: ?thesis if m: "method = ''POST''"
  proof -
    let ?pth = "if path parsed_url = [] then ''/'' else path parsed_url"
    have d: "dispatch w = and_then (forward request ''POST'' host ?pth (get_cache_filename url) w1)
         (\<lambda>_ w2. (Ok Continue, w2))"
      using r1 l t p h w1 m
      by (simp add: dispatch_def item_split_sep_0 lift_def Let_def)
    have "connects (snd (dispatch w)) = connects w1 @ [(host, 80)]"
      unfolding d by (rule and_then_connects [OF forward_connects]) simp
    then show ?thesis using w1 m by (simp add: handle_tail_connects)
  qed
  from get post show ?thesis by blast
qed

text \<open>
  Two requests in a row: the first GET is forwarded and its response stored; the second
  request finds the cache as the first left it, with the origin out of reach.
\<close>

definition get_x :: bytes where
  "get_x = ''GET http://a.example/x HTTP/1.1'' @ CRLF @ CRLF"

definition post_x :: bytes where
  "post_x = ''POST http://a.example/x HTTP/1.1'' @ CRLF @ ''Content-Length: 0'' @ CRLF @ CRLF"

definition reply_x :: bytes where
  "reply_x = ''HTTP/1.1 200 OK'' @ CRLF @ CRLF @ ''x''"

definition first_fetch :: world where
  "first_fetch = start (talking [Data get_x] None) (only (''a.example'', 80) (origin [Data reply_x, Data []]))"

definition second_get :: world where
  "second_get = (snd (handle_client_request first_fetch))
     \<lparr>client := talking [Data get_x] None, net := (\<lambda>a. None), connects := []\<rparr>"

definition second_post :: world where
  "second_post = (snd (handle_client_request first_fetch))
     \<lparr>client := talking [Data post_x] None, net := (\<lambda>a. None), connects := []\<rparr>"

lemma first_fetch_run:
  "fst (handle_client_request first_fetch) = Ok ()"
  "files (snd (handle_client_request first_fetch)) = [get_cache_filename ''http://a.example/x'' \<mapsto> reply_x]"
  "lib (snd (handle_client_request first_fetch)) = plain_lib"
  "connects (snd (handle_client_request first_fetch)) = [(''a.example'', 80)]"
  "outgoing (client (snd (handle_client_request first_fetch))) = reply_x"
  by (simp_all add: first_fetch_def get_x_def reply_x_def fixture_eval byte_eval url_eval io_eval)

theorem cached_get_served_from_cache_witness:
  "files second_get (get_cache_filename ''http://a.example/x'') = Some reply_x
   \<and> net second_get (''a.example'', 80) = None
   \<and> accepts (client second_get) \<noteq> Some 0
   \<and> fst (handle_client_request second_get) = Ok ()
   \<and> outgoing (client (snd (handle_client_request second_get))) = reply_x
   \<and> closed (client (snd (handle_client_request second_get)))
   \<and> connects (snd (handle_client_request second_get)) = []"
proof -
  have r: "fst (client_recv 4096 second_get) = Ok get_x"
    by (simp add: second_get_def talking_def client_recv_def recv_def get_x_def CRLF_def)
  have l: "split_ws (hd (split_sep [LF] get_x)) = [''GET'', ''http://a.example/x'', ''HTTP/1.1'']"
    by (simp add: get_x_def byte_eval)
  have t: "target_url ''http://a.example/x'' = Inr ''http://a.example/x''"
    by (simp add: target_url_def byte_eval)
  have p: "urlparse (lib second_get) ''http://a.example/x''
      = Inr \<lparr>scheme = ''http'', netloc = ''a.example'', path = ''/x'', query = [], fragment = [], params = []\<rparr>"
    by (simp add: second_get_def first_fetch_run plain_lib_def byte_eval url_eval)
  have h: "hostname (lib second_get)
      \<lparr>scheme = ''http'', netloc = ''a.example'', path = ''/x'', query = [], fragment = [], params = []\<rparr>
      = Some ''a.example''"
    by (simp add: second_get_def first_fetch_run plain_lib_def byte_eval url_eval)
  have c: "files second_get (get_cache_filename ''http://a.example/x'') = Some reply_x"
    by (simp add: second_get_def first_fetch_run)
  have live: "accepts (client second_get) \<noteq> Some 0"
    by (simp add: second_get_def talking_def)
  have o: "outgoing (client second_get) = []" "connects second_get = []"
    "net second_get (''a.example'', 80) = None"
    by (simp_all add: second_get_def talking_def)
  show ?thesis
    using cached_get_served_from_cache [OF r l t p h c] c o live by simp
qed

definition second_get_gone :: world where
  \<comment> \<open>the second GET comes from a client that is gone before the reply\<close>
  "second_get_gone = (snd (handle_client_request first_fetch))
     \<lparr>client := talking [Data get_x] (Some 0), net := (\<lambda>a. None), connects := []\<rparr>"

text \<open>
  The claim as first stated also covers a second POST request, and it promises the payload
  to every client. Here the response for the URL is in the cache and the origin can no
  longer be reached. The POST request still connects to the origin, and the client gets the
  400 response instead of the stored bytes. The GET request of a client that is gone before
  the reply opens no connection, but nothing is delivered and the call ends with the error
  of the failed send.
\<close>

theorem second_request_not_served_from_cache:
  "files second_post (get_cache_filename ''http://a.example/x'') = Some reply_x
   \<and> connects (snd (handle_client_request second_post)) = [(''a.example'', 80)]
   \<and> outgoing (client (snd (handle_client_request second_post))) = error_400
   \<and> files second_get_gone (get_cache_filename ''http://a.example/x'') = Some reply_x
   \<and> fst (handle_client_request second_get_gone) = Raise OSError
   \<and> outgoing (client (snd (handle_client_request second_get_gone))) = []"
  by (simp add: second_post_def second_get_gone_def first_fetch_def get_x_def post_x_def
      reply_x_def fixture_eval byte_eval url_eval io_eval)

section \<open>Facts about the parsed target\<close>

lemma set_before: "set (before c s) \<subseteq> set s" "c \<notin> set (before c s)"
  by (auto simp: before_def dest: set_takeWhileD)

lemma set_after_last: "set (after_last c s) \<subseteq> set s"
  by (auto simp: after_last_def dest: set_takeWhileD)

lemma urlsplit_path:
  assumes "urlsplit L u = Inr r"
  shows "CHR ''?'' \<notin> set (path r)"
proof -
  from assms have "\<exists>v. path r = before CHR ''?'' v"
    by (auto simp: urlsplit_def split: prod.splits if_splits)
  then show ?thesis using set_before(2) by auto
qed

lemma set_splitparams: "set (fst (splitparams u)) \<subseteq> set u"
proof -
  have "set (take k u) \<subseteq> set u" for k by (auto dest: in_set_takeD)
  moreover have "set (before CHR '';'' (after_last CHR ''/'' u)) \<subseteq> set u"
    using set_before(1) set_after_last by blast
  ultimately show ?thesis
    by (simp add: splitparams_def Let_def)
qed

lemma urlparse_path:
  assumes "urlparse L u = Inr r"
  shows "CHR ''?'' \<notin> set (path r)"
proof -
  from assms obtain s where s: "urlsplit L u = Inr s"
    and r: "path r = path s \<or> path r = fst (splitparams (path s))"
    by (auto simp: urlparse_def Let_def split: sum.splits if_splits)
  from s have "CHR ''?'' \<notin> set (path s)" by (rule urlsplit_path)
  with r set_splitparams [of "path s"] show ?thesis by auto
qed

lemma take2_slashes: "take 2 u = ''//'' \<Longrightarrow> CHR ''/'' \<in> set u"
  by (cases u) (auto simp: take_Cons' split: if_splits)

lemma split_scheme_set: "split_scheme u = (sch, v) \<Longrightarrow> set v \<subseteq> set u"
  by (auto simp: split_scheme_def Let_def split: if_splits dest: in_set_dropD)

lemma clean_url_set: "set (clean_url u) \<subseteq> set u"
  by (auto simp: clean_url_def dest: set_dropWhileD)

lemma urlsplit_no_slash:
  assumes "CHR ''/'' \<notin> set u"
  shows "\<exists>r. urlsplit L u = Inr r \<and> netloc r = []"
proof -
  obtain sch v where sv: "split_scheme (clean_url u) = (sch, v)" by force
  with assms have "CHR ''/'' \<notin> set v"
    using split_scheme_set [OF sv] clean_url_set [of u] by auto
  then have "take 2 v \<noteq> ''//''" using take2_slashes by blast
  then show ?thesis
    by (simp add: urlsplit_def sv splitnetloc_def checknetloc_def)
qed

lemma urlparse_no_slash:
  assumes "CHR ''/'' \<notin> set u"
  shows "\<exists>r. urlparse L u = Inr r \<and> netloc r = []"
  using urlsplit_no_slash [OF assms, of L] by (auto simp: urlparse_def Let_def)

lemma no_netloc: "netloc r = [] \<Longrightarrow> hostname L r = None \<and> port r = Inr None"
  by (simp add: hostname_def port_def hostinfo_def after_last_def before_def after_def)

section \<open>The target of a tunnel\<close>

lemma handle_https_request_no_slash:
  assumes s: "CHR ''/'' \<notin> set url" and a: "list_all is_ascii url"
  shows "handle_https_request m url w =
     and_then (client_sendall error_500 (log TunnelError w)) (\<lambda>_ w2. (Ok (), client_close w2))"
proof -
  from urlparse_no_slash [OF s, of "lib w"] obtain r
    where r: "urlparse (lib w) url = Inr r" and n: "netloc r = []" by blast
  from n have h: "hostname (lib w) r = None" "port r = Inr None"
    using no_netloc by auto
  show ?thesis
    by (simp add: handle_https_request_def urlparse_bytes_def a r h lift_def tunnel_def connect_def)
qed

text \<open>
  C2 (the program departs from the claim). A CONNECT target has the form \<open>host[:port]\<close>,
  and the tunnel should be opened to that host and port. The program hands the target to
  \<open>urlparse\<close>, which finds a host only behind \<open>//\<close>: for every target without a slash
  the host is \<open>None\<close> and the port 443, the call of \<open>connect\<close> raises before anything
  reaches the network, and the client is answered with the 500 response. No connection is
  ever opened for a target of the form \<open>host[:port]\<close>.
\<close>

theorem connect_target_never_reached:
  assumes r: "fst (client_recv 4096 w) = Ok request"
    and l: "split_ws (hd (split_sep [LF] request)) = [''CONNECT'', url, version]"
    and s: "CHR ''/'' \<notin> set url"
  shows "connects (snd (handle_client_request w)) = connects w
    \<and> (list_all is_ascii url \<and> accepts (client w) \<noteq> Some 0 \<longrightarrow>
          fst (handle_client_request w) = Ok ()
          \<and> outgoing (client (snd (handle_client_request w))) = outgoing (client w) @ error_500
          \<and> closed (client (snd (handle_client_request w))))"
proof -
  from r obtain w1 where r1: "client_recv 4096 w = (Ok request, w1)"
    by (auto dest: client_recv_fst)
  then have c: "\<not> closed (client w1)" "accepts (client w1) = accepts (client w)"
    "outgoing (client w1) = outgoing (client w)" "connects w1 = connects w"
    by (auto dest: client_recv_Ok)
  have d: "dispatch w = and_then (handle_https_request ''CONNECT'' url w1) (\<lambda>_ w2. (Ok Return, w2))"
    using r1 l by (simp add: dispatch_def item_split_sep_0 lift_def)
  show ?thesis
  proof (cases "list_all is_ascii url")
    case True
    note h = handle_https_request_no_slash [OF s True, of "''CONNECT''" w1]
    show ?thesis
    proof (cases "accepts (client w) = Some 0")
      case dead: True
      then have "client_sendall error_500 (log TunnelError w1) = (Raise OSError, log TunnelError w1)"
        and "client_sendall error_400 (log RequestError (log TunnelError w1))
             = (Raise OSError, log RequestError (log TunnelError w1))"
        using c by (simp_all add: client_sendall_dead log_def)
      then show ?thesis using dead c d h
        by (simp add: handle_client_request_def log_def)
    next
      case False
      then show ?thesis using c d h
        by (simp add: handle_client_request_def client_sendall_live client_close_def log_def)
    qed
  next
    case False
    then have "handle_https_request ''CONNECT'' url w1 = (Raise UnicodeDecodeError, w1)"
      by (simp add: handle_https_request_def urlparse_bytes_def lift_def)
    with d have "dispatch w = (Raise UnicodeDecodeError, w1)" by simp
    then have "connects (snd (handle_client_request w)) = connects w1"
      using handle_tail_connects [of w] by simp
    with False c show ?thesis by simp
  qed
qed

definition connect_host_port :: world where
  "connect_host_port =
     start (talking [Data (''CONNECT example.com:8443 HTTP/1.1'' @ CRLF @ CRLF)] None)
       (only (''example.com'', 8443) (origin [Data []]))"

theorem connect_target_never_reached_witness:
  "fst (client_recv 4096 connect_host_port) = Ok (''CONNECT example.com:8443 HTTP/1.1'' @ CRLF @ CRLF)
   \<and> net connect_host_port (''example.com'', 8443) = Some (origin [Data []])
   \<and> accepts (client connect_host_port) \<noteq> Some 0
   \<and> connects (snd (handle_client_request connect_host_port)) = []
   \<and> fst (handle_client_request connect_host_port) = Ok ()
   \<and> outgoing (client (snd (handle_client_request connect_host_port))) = error_500
   \<and> closed (client (snd (handle_client_request connect_host_port)))"
proof -
  have r: "fst (client_recv 4096 connect_host_port) = Ok (''CONNECT example.com:8443 HTTP/1.1'' @ CRLF @ CRLF)"
    by (simp add: connect_host_port_def fixture_eval client_recv_def recv_def CRLF_def)
  have l: "split_ws (hd (split_sep [LF] (''CONNECT example.com:8443 HTTP/1.1'' @ CRLF @ CRLF)))
      = [''CONNECT'', ''example.com:8443'', ''HTTP/1.1'']"
    by (simp add: byte_eval)
  have s: "CHR ''/'' \<notin> set ''example.com:8443''" by simp
  have a: "list_all is_ascii ''example.com:8443''" by (simp add: byte_eval)
  have o: "accepts (client connect_host_port) \<noteq> Some 0" "outgoing (client connect_host_port) = []"
    "connects connect_host_port = []"
    "net connect_host_port (''example.com'', 8443) = Some (origin [Data []])"
    by (simp_all add: connect_host_port_def fixture_eval)
  show ?thesis
    using connect_target_never_reached [OF r l s] r a o by simp
qed

definition connect_bad_port :: world where
  "connect_bad_port =
     start (talking [Data (''CONNECT //example.com:99999 HTTP/1.1'' @ CRLF @ CRLF)] None)
       (only (''example.com'', 443) (origin [Data []]))"

text \<open>
  Lines 27-29 stand in front of the \<open>try\<close> statement: a target that \<open>urlparse\<close> or
  the \<open>port\<close> property rejects is answered by the handler of the dispatcher, with 400.
\<close>

lemma tunnel_bad_port_400:
  "connects (snd (handle_client_request connect_bad_port)) = []
   \<and> outgoing (client (snd (handle_client_request connect_bad_port))) = error_400"
  by (simp add: connect_bad_port_def fixture_eval byte_eval url_eval io_eval)

section \<open>The request line of a forwarded GET\<close>

lemma recv_outgoing: "outgoing (snd (recv n s)) = outgoing s"
  by (auto simp: recv_def split: list.splits recv_event.splits)

lemma upstream_recv_keeps:
  "upstream_recv n w = (r, w') \<Longrightarrow>
     outgoing (upstream w') = outgoing (upstream w) \<and> files w' = files w"
  using recv_outgoing [of n "upstream w"]
  by (cases "recv n (upstream w)") (auto simp: upstream_recv_def)

lemma recv_all_keeps:
  "recv_all acc w = (r, w') \<Longrightarrow>
     outgoing (upstream w') = outgoing (upstream w) \<and> files w' = files w"
proof (induction acc w arbitrary: r w' rule: recv_all.induct)
  case (1 response w)
  obtain r1 w1 where u: "upstream_recv 4096 w = (r1, w1)" by force
  note k = upstream_recv_keeps [OF u]
  show ?case
  proof (cases r1)
    case (Ok data)
    show ?thesis
    proof (cases "data = []")
      case True
      with "1.prems" u Ok k show ?thesis by (subst (asm) recv_all.simps) simp
    next
      case False
      with "1.prems" u Ok have "recv_all (response @ data) w1 = (r, w')"
        by (subst (asm) recv_all.simps) simp
      with "1.IH" [of data w1 r w'] u Ok False k show ?thesis by simp
    qed
  next
    case (Raise e)
    with "1.prems" u k show ?thesis by (subst (asm) recv_all.simps) simp
  next
    case Block
    with "1.prems" u k show ?thesis by (subst (asm) recv_all.simps) simp
  qed
qed

lemma client_sendall_keeps:
  "client_sendall d w = (r, w') \<Longrightarrow> upstream w' = upstream w \<and> files w' = files w"
  by (cases "sendall d (client w)") (auto simp: client_sendall_def)

lemma cache_store_keeps:
  "upstream (cache_store fn response w) = upstream w"
  "f \<noteq> fn \<Longrightarrow> files (cache_store fn response w) f = files w f"
  by (auto simp: cache_store_def log_def split: disk.splits)

lemma diagnose_keeps: "upstream (diagnose response w) = upstream w"
  "files (diagnose response w) = files w"
  by (auto simp: diagnose_def log_def)

lemma upstream_sendall_live:
  "\<not> closed (upstream w) \<Longrightarrow> accepts (upstream w) \<noteq> Some 0 \<Longrightarrow>
     \<exists>w'. upstream_sendall d w = (Ok (), w') \<and> outgoing (upstream w') = outgoing (upstream w) @ d
        \<and> files w' = files w"
  by (simp add: upstream_sendall_def sendall_live)

lemma forward_get:
  assumes n: "net w (host, 80) = Some pr" and a: "accepts pr \<noteq> Some 0"
    and f: "forward request ''GET'' host pth fn w = (r, w')"
  shows "outgoing (upstream w') = get_request pth host"
    and "g \<noteq> fn \<Longrightarrow> files w' g = files w g"
proof -
  let ?w1 = "w\<lparr>connects := connects w @ [(host, 80)], upstream := pr\<lparr>outgoing := [], closed := False\<rparr>\<rparr>"
  have c: "connect (Some host) 80 w = (Ok (), ?w1)" using n by (simp add: connect_def)
  from a obtain w3 where s: "upstream_sendall (get_request pth host) ?w1 = (Ok (), w3)"
    and o3: "outgoing (upstream w3) = get_request pth host" and f3: "files w3 = files w"
    using upstream_sendall_live [of ?w1 "get_request pth host"] by auto
  obtain r4 w4 where ra: "recv_all [] w3 = (r4, w4)" by force
  note k4 = recv_all_keeps [OF ra]
  have "outgoing (upstream w') = get_request pth host \<and> (g \<noteq> fn \<longrightarrow> files w' g = files w g)"
  proof (cases r4)
    case (Ok response)
    obtain r5 w5 where cs: "client_sendall response (cache_store fn response (diagnose response w4)) = (r5, w5)"
      by force
    note k5 = client_sendall_keeps [OF cs]
    from f c s ra Ok cs have "w' = w5 \<or> w' = upstream_close w5"
      by (cases r5) (auto simp: forward_def lift_def leave_with_def)
    then show ?thesis using k5 k4 o3 f3
      by (auto simp: cache_store_keeps diagnose_keeps upstream_close_def)
  next
    case (Raise e)
    with f c s ra have "w' = upstream_close w4"
      by (simp add: forward_def lift_def leave_with_def)
    then show ?thesis using k4 o3 f3 by (simp add: upstream_close_def)
  next
    case Block
    with f c s ra have "w' = w4"
      by (simp add: forward_def lift_def leave_with_def)
    then show ?thesis using k4 o3 f3 by simp
  qed
  then show "outgoing (upstream w') = get_request pth host"
    and "g \<noteq> fn \<Longrightarrow> files w' g = files w g" by auto
qed

lemma handle_tail_keeps:
  "upstream (snd (handle_client_request w)) = upstream (snd (dispatch w))"
  "files (snd (handle_client_request w)) = files (snd (dispatch w))"
proof -
  obtain r w1 where d: "dispatch w = (r, w1)" by force
  obtain r2 w2 where c: "client_sendall error_400 (log RequestError w1) = (r2, w2)" by force
  from client_sendall_keeps [OF c]
  have "upstream w2 = upstream w1" "files w2 = files w1" by (simp_all add: log_def)
  with d c show "upstream (snd (handle_client_request w)) = upstream (snd (dispatch w))"
    and "files (snd (handle_client_request w)) = files (snd (dispatch w))"
    by (auto simp: handle_client_request_def client_close_def and_then_def
        split: outcome.splits flow.splits)
qed

text \<open>
  C10. A GET request that is forwarded is sent to the origin with a request line that holds
  only the path of the parsed target (\<open>/\<close> when it is empty), followed by the \<open>Host\<close>
  and \<open>Connection: close\<close> headers. The path never contains a question mark, so a query
  string of the target is left out of the forwarded request. The cache file of the request
  is still named after the whole target, query included: it is the only file of the cache
  the request can change.
\<close>

theorem get_forwards_path_only:
  assumes r: "fst (client_recv 4096 w) = Ok request"
    and l: "split_ws (hd (split_sep [LF] request)) = [''GET'', url, version]"
    and t: "target_url url = Inr target"
    and p: "urlparse (lib w) target = Inr parsed_url"
    and h: "hostname (lib w) parsed_url = Some host"
    and miss: "files w (get_cache_filename url) = None"
    and n: "net w (host, 80) = Some pr"
    and a: "accepts pr \<noteq> Some 0"
  shows "outgoing (upstream (snd (handle_client_request w)))
       = ''GET '' @ (if path parsed_url = [] then ''/'' else path parsed_url) @ '' HTTP/1.1'' @ CRLF
         @ ''Host: '' @ host @ CRLF @ ''Connection: close'' @ CRLF @ CRLF
     \<and> CHR ''?'' \<notin> set (path parsed_url)
     \<and> (\<forall>f. f \<noteq> get_cache_filename url \<longrightarrow> files (snd (handle_client_request w)) f = files w f)"
proof -
  let ?pth = "if path parsed_url = [] then ''/'' else path parsed_url"
  let ?fn = "get_cache_filename url"
  from r obtain w1 where r1: "client_recv 4096 w = (Ok request, w1)"
    by (auto dest: client_recv_fst)
  then have w1: "files w1 = files w" "lib w1 = lib w" "net w1 = net w"
    by (auto dest: client_recv_Ok)
  obtain r2 w2 where f: "forward request ''GET'' host ?pth ?fn w1 = (r2, w2)" by force
  have d: "dispatch w = and_then (forward request ''GET'' host ?pth ?fn w1) (\<lambda>_ w2. (Ok Continue, w2))"
    using r1 l t p h miss w1
    by (simp add: dispatch_def item_split_sep_0 lift_def Let_def)
  then have "snd (dispatch w) = w2" using f by (cases r2) simp_all
  moreover from n w1 have n1: "net w1 (host, 80) = Some pr" by simp
  note forward_get [OF n1 a f]
  ultimately have "outgoing (upstream (snd (handle_client_request w))) = get_request ?pth host"
    and "\<forall>g. g \<noteq> ?fn \<longrightarrow> files (snd (handle_client_request w)) g = files w g"
    using w1 by (simp_all add: handle_tail_keeps)
  moreover from p have "CHR ''?'' \<notin> set (path parsed_url)" by (rule urlparse_path)
  ultimately show ?thesis by (simp add: get_request_def)
qed

lemma md5_url_xq1: "hexdigest (md5 ''http://a.example/x?q=1'') = ''4704273009d5b3f0e0e0e837fc75843b''"
  by (simp add: md5_eval)

definition get_query :: world where
  "get_query =
     start (talking [Data (''GET http://a.example/x?q=1 HTTP/1.1'' @ CRLF @ CRLF)] None)
       (only (''a.example'', 80) (origin [Data ''HTTP/1.1 200 OK'', Data []]))"

theorem get_forwards_path_only_witness:
  "fst (client_recv 4096 get_query) = Ok (''GET http://a.example/x?q=1 HTTP/1.1'' @ CRLF @ CRLF)
   \<and> outgoing (upstream (snd (handle_client_request get_query)))
       = ''GET /x HTTP/1.1'' @ CRLF @ ''Host: a.example'' @ CRLF @ ''Connection: close'' @ CRLF @ CRLF
   \<and> files (snd (handle_client_request get_query)) (get_cache_filename ''http://a.example/x'') = None
   \<and> files (snd (handle_client_request get_query)) (get_cache_filename ''http://a.example/x?q=1'')
       = Some ''HTTP/1.1 200 OK''"
proof -
  let ?r = "\<lparr>scheme = ''http'', netloc = ''a.example'', path = ''/x'', query = ''q=1'',
     fragment = [], params = []\<rparr>"
  have r: "fst (client_recv 4096 get_query) = Ok (''GET http://a.example/x?q=1 HTTP/1.1'' @ CRLF @ CRLF)"
    by (simp add: get_query_def fixture_eval client_recv_def recv_def CRLF_def)
  have l: "split_ws (hd (split_sep [LF] (''GET http://a.example/x?q=1 HTTP/1.1'' @ CRLF @ CRLF)))
      = [''GET'', ''http://a.example/x?q=1'', ''HTTP/1.1'']"
    by (simp add: byte_eval)
  have t: "target_url ''http://a.example/x?q=1'' = Inr ''http://a.example/x?q=1''"
    by (simp add: target_url_def byte_eval)
  have p: "urlparse (lib get_query) ''http://a.example/x?q=1'' = Inr ?r"
    by (simp add: get_query_def fixture_eval byte_eval url_eval)
  have h: "hostname (lib get_query) ?r = Some ''a.example''"
    by (simp add: get_query_def fixture_eval byte_eval url_eval)
  have miss: "files get_query (get_cache_filename ''http://a.example/x?q=1'') = None"
    by (simp add: get_query_def fixture_eval)
  have n: "net get_query (''a.example'', 80) = Some (origin [Data ''HTTP/1.1 200 OK'', Data []])"
    by (simp add: get_query_def fixture_eval)
  have a: "accepts (origin [Data ''HTTP/1.1 200 OK'', Data []]) \<noteq> Some 0"
    by (simp add: origin_def)
  have other: "get_cache_filename ''http://a.example/x'' \<noteq> get_cache_filename ''http://a.example/x?q=1''"
    by (simp add: cache_filename_eq md5_url_x md5_url_xq1)
  have empty: "files get_query (get_cache_filename ''http://a.example/x'') = None"
    by (simp add: get_query_def fixture_eval)
  have stored: "files (snd (handle_client_request get_query)) (get_cache_filename ''http://a.example/x?q=1'')
       = Some ''HTTP/1.1 200 OK''"
    by (simp add: get_query_def fixture_eval byte_eval url_eval io_eval)
  show ?thesis
    using get_forwards_path_only [OF r l t p h miss n a] r other empty stored by simp
qed

section \<open>A cache write that fails\<close>

definition agree :: "world \<Rightarrow> world \<Rightarrow> bool" where
  \<comment> \<open>two worlds that differ at most in the cache directory, the disk and the log\<close>
  "agree w w' = (lib w = lib w' \<and> client w = client w' \<and> net w = net w'
     \<and> upstream w = upstream w' \<and> connects w = connects w')"

definition alike :: "'a outcome \<times> world \<Rightarrow> 'a outcome \<times> world \<Rightarrow> bool" where
  "alike m m' = (fst m = fst m' \<and> agree (snd m) (snd m'))"

lemma alike_simps [simp]:
  "alike (r, w) (r', w') = (r = r' \<and> agree w w')"
  by (simp add: alike_def)

























section \<open>The tunnel after the 200 reply\<close>

definition tunnel_reset :: world where
  \<comment> \<open>the origin accepts the connection and the handshake, then resets the connection\<close>
  "tunnel_reset =
     start (talking [Data (''CONNECT //example.com:443 HTTP/1.1'' @ CRLF @ CRLF), Data ''hello''] None)
       (only (''example.com'', 443) (origin [Reset]))"

text \<open>
  C3 (the program departs from the claim). After the reply
  \<open>200 Connection Established\<close> nothing but bytes of the origin should reach the client.
  The \<open>try\<close> statement of \<open>handle_https_request\<close> also covers the relay loop, so an
  error in the loop runs the handler meant for a tunnel that could not be established: here
  the origin resets the connection after the client's first chunk has been relayed, and the
  client is sent the 500 response behind the 200 reply.
\<close>

theorem error_response_after_established:
  "fst (handle_client_request tunnel_reset) = Ok ()
   \<and> connects (snd (handle_client_request tunnel_reset)) = [(''example.com'', 443)]
   \<and> outgoing (upstream (snd (handle_client_request tunnel_reset))) = ''hello''
   \<and> outgoing (client (snd (handle_client_request tunnel_reset))) = established @ error_500"
  by (simp add: tunnel_reset_def fixture_eval byte_eval url_eval io_eval)

section \<open>The body of a forwarded POST\<close>

definition post_hello :: world where
  "post_hello =
     start (talking [Data (''POST http://a.example/submit HTTP/1.1'' @ CRLF
                @ ''Content-Length: 5'' @ CRLF @ CRLF @ ''helloEXTRA'')] None)
       (only (''a.example'', 80) (origin [Data ''HTTP/1.1 200 OK'', Data []]))"

definition post_two_lengths :: world where
  "post_two_lengths =
     start (talking [Data (''POST http://a.example/submit HTTP/1.1'' @ CRLF
                @ ''Content-Length: 5'' @ CRLF @ ''Content-Length: 3'' @ CRLF @ CRLF @ ''hello'')] None)
       (only (''a.example'', 80) (origin [Data ''HTTP/1.1 200 OK'', Data []]))"

text \<open>
  C4 (the program departs from the claim). The forwarded body should be exactly the
  \<open>Content-Length\<close> bytes that follow the blank line. The program uses the length only
  for the header it writes and to decide whether there is a body; the body it sends is
  everything between the first and the second blank line of the buffered request. With
  \<open>Content-Length: 5\<close> and the bytes \<open>helloEXTRA\<close> after the blank line, the origin
  is sent ten bytes under a header announcing five. The length is also taken from the last
  line that contains \<open>Content-Length\<close>, not from the first.
\<close>

theorem post_body_not_cut_to_content_length:
  "outgoing (upstream (snd (handle_client_request post_hello)))
     = ''POST /submit HTTP/1.1'' @ CRLF @ ''Host: a.example'' @ CRLF @ ''Content-Length: 5'' @ CRLF
       @ ''Connection: close'' @ CRLF @ CRLF @ ''helloEXTRA''
   \<and> outgoing (upstream (snd (handle_client_request post_two_lengths)))
     = ''POST /submit HTTP/1.1'' @ CRLF @ ''Host: a.example'' @ CRLF @ ''Content-Length: 3'' @ CRLF
       @ ''Connection: close'' @ CRLF @ CRLF @ ''hello''"
  by (simp add: post_hello_def post_two_lengths_def fixture_eval byte_eval url_eval io_eval)

section \<open>Closing the client connection\<close>

definition hung_up :: world where
  \<comment> \<open>a client that sends one token and is gone before the reply\<close>
  "hung_up = start (talking [Data ''X''] (Some 0)) (\<lambda>a. None)"

text \<open>
  C5 (the program departs from the claim). The dispatcher should close the client socket
  on every path. The \<open>close\<close> call of line 149 follows the \<open>except\<close> handler, and the
  handler itself sends the 400 response: when that send fails, because the client is gone,
  the exception leaves \<open>handle_client_request\<close> and the socket is never closed.
\<close>

theorem client_left_open_when_reply_fails:
  "fst (handle_client_request hung_up) = Raise OSError
   \<and> \<not> closed (client (snd (handle_client_request hung_up)))"
  by (simp add: hung_up_def fixture_eval byte_eval io_eval)

end
